theory Spec2Isabelle
  imports Complex_Main "HOL-Library.Multiset"
begin

section \<open>JavaScript numbers\<close>

text \<open>
  Every number the two screens compute with is a JavaScript number: an IEEE 754 binary64
  value.  Such a value is a real \<open>m * 2^e\<close> with \<open>\<bar>m\<bar> < 2^53\<close> and \<open>- 1074 \<le> e \<le> 971\<close>, an
  infinity, or NaN.  The two zeros are one value here: the code never divides by a
  variable and never tells them apart.  Every operation returns the exact result rounded
  to the nearest such value, ties to the even significand; a result that rounds to
  \<open>2^1024\<close> or beyond is an infinity.
\<close>

datatype double = Finite real | PlusInfinity | MinusInfinity | NaN

text \<open>The value of a finite number.\<close>

fun dval :: "double \<Rightarrow> real" where
  "dval (Finite q) = q"
| "dval _ = 0"

text \<open>The binary exponent \<open>\<lfloor>log\<^sub>2 q\<rfloor>\<close> of a positive real: \<open>2^e \<le> q < 2^(e + 1)\<close>.\<close>

function ilog2 :: "real \<Rightarrow> int" where
  "ilog2 q =
     (if q \<le> 0 then 0
      else if q \<ge> 2 then ilog2 (q / 2) + 1
      else if q < 1 then ilog2 (q * 2) - 1
      else 0)"
  by pat_completeness auto
termination
proof (relation "measure (\<lambda>q. if q \<ge> 1 then nat \<lfloor>q\<rfloor> else 1 + nat \<lfloor>1 / q\<rfloor>)")
  show "wf (measure (\<lambda>q::real. if q \<ge> 1 then nat \<lfloor>q\<rfloor> else 1 + nat \<lfloor>1 / q\<rfloor>))"
    by simp
next
  fix q :: real
  assume a: "\<not> q \<le> 0" "2 \<le> q"
  have "\<lfloor>q / 2\<rfloor> < \<lfloor>q\<rfloor>" "1 \<le> \<lfloor>q / 2\<rfloor>"
    using a by linarith+
  then show "(q / 2, q) \<in> measure (\<lambda>q. if q \<ge> 1 then nat \<lfloor>q\<rfloor> else 1 + nat \<lfloor>1 / q\<rfloor>)"
    using a by simp
next
  fix q :: real
  assume a: "\<not> q \<le> 0" "\<not> 2 \<le> q" "q < 1"
  have x: "1 < 1 / q"
    using a by simp
  have h: "1 / (q * 2) = (1 / q) / 2"
    by simp
  have 1: "1 \<le> \<lfloor>1 / q\<rfloor>"
    using x by linarith
  have "\<lfloor>y / 2\<rfloor> < \<lfloor>y\<rfloor>" if "1 < y" for y :: real
  proof -
    have "1 \<le> \<lfloor>y\<rfloor>"
      using that by (simp add: le_floor_iff)
    then have "(1::real) \<le> of_int \<lfloor>y\<rfloor>"
      by linarith
    moreover have "of_int \<lfloor>y / 2\<rfloor> \<le> y / 2" "y < of_int \<lfloor>y\<rfloor> + 1"
      by linarith+
    ultimately have "(of_int \<lfloor>y / 2\<rfloor> :: real) < of_int \<lfloor>y\<rfloor>"
      by linarith
    then show ?thesis
      by simp
  qed
  from this [OF x] have 2: "\<lfloor>1 / (q * 2)\<rfloor> < \<lfloor>1 / q\<rfloor>"
    unfolding h .
  have 3: "1 \<le> q * 2 \<Longrightarrow> \<lfloor>q * 2\<rfloor> = 1"
    using a by linarith
  show "(q * 2, q) \<in> measure (\<lambda>q. if q \<ge> 1 then nat \<lfloor>q\<rfloor> else 1 + nat \<lfloor>1 / q\<rfloor>)"
    using a 1 2 3 by auto
qed

declare ilog2.simps [simp del]

definition roundHalfEven :: "real \<Rightarrow> int" where
  "roundHalfEven q =
     (let f = \<lfloor>q\<rfloor>; r = q - of_int f
      in if r < 1 / 2 then f
         else if r > 1 / 2 then f + 1
         else if even f then f else f + 1)"

text \<open>
  Rounding to binary64: the unit in the last place of \<open>q\<close> is \<open>2^(e - 52)\<close> for the
  exponent \<open>e\<close> of \<open>q\<close>, and \<open>2^(- 1074)\<close> in the subnormal range.  A decimal literal of
  the source denotes the rounding of its value: \<^verbatim>\<open>0.15\<close> is \<open>round64 (15 / 100)\<close>.
\<close>

definition round64 :: "real \<Rightarrow> double" where
  "round64 q =
     (if q = 0 then Finite 0
      else
        let e = max (ilog2 \<bar>q\<bar>) (- 1022);
            u = 2 powi (e - 52);
            r = of_int (roundHalfEven (q / u)) * u
        in if \<bar>r\<bar> \<ge> 2 powi 1024 then (if q > 0 then PlusInfinity else MinusInfinity)
           else Finite r)"

text \<open>\<^verbatim>\<open>a + b\<close>, \<^verbatim>\<open>a - b\<close>, \<^verbatim>\<open>a * b\<close> and \<^verbatim>\<open>a / b\<close> on numbers.\<close>

fun dadd :: "double \<Rightarrow> double \<Rightarrow> double" where
  "dadd NaN _ = NaN"
| "dadd _ NaN = NaN"
| "dadd PlusInfinity MinusInfinity = NaN"
| "dadd MinusInfinity PlusInfinity = NaN"
| "dadd PlusInfinity _ = PlusInfinity"
| "dadd _ PlusInfinity = PlusInfinity"
| "dadd MinusInfinity _ = MinusInfinity"
| "dadd _ MinusInfinity = MinusInfinity"
| "dadd (Finite a) (Finite b) = round64 (a + b)"

fun dsub :: "double \<Rightarrow> double \<Rightarrow> double" where
  "dsub NaN _ = NaN"
| "dsub _ NaN = NaN"
| "dsub PlusInfinity PlusInfinity = NaN"
| "dsub MinusInfinity MinusInfinity = NaN"
| "dsub PlusInfinity _ = PlusInfinity"
| "dsub MinusInfinity _ = MinusInfinity"
| "dsub _ PlusInfinity = MinusInfinity"
| "dsub _ MinusInfinity = PlusInfinity"
| "dsub (Finite a) (Finite b) = round64 (a - b)"

fun dmul :: "double \<Rightarrow> double \<Rightarrow> double" where
  "dmul NaN _ = NaN"
| "dmul _ NaN = NaN"
| "dmul (Finite a) (Finite b) = round64 (a * b)"
| "dmul (Finite a) PlusInfinity =
     (if a = 0 then NaN else if a > 0 then PlusInfinity else MinusInfinity)"
| "dmul (Finite a) MinusInfinity =
     (if a = 0 then NaN else if a > 0 then MinusInfinity else PlusInfinity)"
| "dmul PlusInfinity (Finite b) =
     (if b = 0 then NaN else if b > 0 then PlusInfinity else MinusInfinity)"
| "dmul MinusInfinity (Finite b) =
     (if b = 0 then NaN else if b > 0 then MinusInfinity else PlusInfinity)"
| "dmul PlusInfinity PlusInfinity = PlusInfinity"
| "dmul PlusInfinity MinusInfinity = MinusInfinity"
| "dmul MinusInfinity PlusInfinity = MinusInfinity"
| "dmul MinusInfinity MinusInfinity = PlusInfinity"

text \<open>
  The divisors of this program are the literals 2, 100, 1000, 4000 and 5000 and the
  length of a non-empty array; a zero divisor is read as \<open>+0\<close>.
\<close>

fun ddiv :: "double \<Rightarrow> double \<Rightarrow> double" where
  "ddiv NaN _ = NaN"
| "ddiv _ NaN = NaN"
| "ddiv (Finite a) (Finite b) =
     (if b = 0 then (if a = 0 then NaN else if a > 0 then PlusInfinity else MinusInfinity)
      else round64 (a / b))"
| "ddiv (Finite a) PlusInfinity = Finite 0"
| "ddiv (Finite a) MinusInfinity = Finite 0"
| "ddiv PlusInfinity (Finite b) = (if b < 0 then MinusInfinity else PlusInfinity)"
| "ddiv MinusInfinity (Finite b) = (if b < 0 then PlusInfinity else MinusInfinity)"
| "ddiv PlusInfinity PlusInfinity = NaN"
| "ddiv PlusInfinity MinusInfinity = NaN"
| "ddiv MinusInfinity PlusInfinity = NaN"
| "ddiv MinusInfinity MinusInfinity = NaN"

text \<open>\<^verbatim>\<open>Math.abs\<close>, \<^verbatim>\<open>Math.sqrt\<close>, \<^verbatim>\<open>Math.ceil\<close> and \<^verbatim>\<open>Math.floor\<close>.\<close>

fun dabs :: "double \<Rightarrow> double" where
  "dabs (Finite a) = Finite \<bar>a\<bar>"
| "dabs PlusInfinity = PlusInfinity"
| "dabs MinusInfinity = PlusInfinity"
| "dabs NaN = NaN"

fun dsqrt :: "double \<Rightarrow> double" where
  "dsqrt (Finite a) = (if a < 0 then NaN else round64 (sqrt a))"
| "dsqrt PlusInfinity = PlusInfinity"
| "dsqrt MinusInfinity = NaN"
| "dsqrt NaN = NaN"

fun dceil :: "double \<Rightarrow> double" where
  "dceil (Finite a) = round64 (of_int \<lceil>a\<rceil>)"
| "dceil d = d"

fun dfloor :: "double \<Rightarrow> double" where
  "dfloor (Finite a) = round64 (of_int \<lfloor>a\<rfloor>)"
| "dfloor d = d"

text \<open>\<^verbatim>\<open>a < b\<close> and \<^verbatim>\<open>a <= b\<close>; \<^verbatim>\<open>a > b\<close> is \<open>dless b a\<close> and \<^verbatim>\<open>a >= b\<close> is \<open>dle b a\<close>.  A
  comparison with NaN is false.\<close>

fun dless :: "double \<Rightarrow> double \<Rightarrow> bool" where
  "dless NaN _ = False"
| "dless _ NaN = False"
| "dless (Finite a) (Finite b) = (a < b)"
| "dless _ MinusInfinity = False"
| "dless MinusInfinity _ = True"
| "dless PlusInfinity _ = False"
| "dless _ PlusInfinity = True"

fun dle :: "double \<Rightarrow> double \<Rightarrow> bool" where
  "dle NaN _ = False"
| "dle _ NaN = False"
| "dle (Finite a) (Finite b) = (a \<le> b)"
| "dle MinusInfinity _ = True"
| "dle _ MinusInfinity = False"
| "dle _ PlusInfinity = True"
| "dle PlusInfinity _ = False"

text \<open>\<^verbatim>\<open>Math.min\<close> and \<^verbatim>\<open>Math.max\<close> of two numbers: NaN if one of them is.\<close>

definition dmin :: "double \<Rightarrow> double \<Rightarrow> double" where
  "dmin a b = (if a = NaN \<or> b = NaN then NaN else if dless b a then b else a)"

definition dmax :: "double \<Rightarrow> double \<Rightarrow> double" where
  "dmax a b = (if a = NaN \<or> b = NaN then NaN else if dless a b then b else a)"

text \<open>
  Numbers on a common binary grid: \<open>onGrid k B d\<close> says that \<open>d\<close> is \<open>m * 2^k\<close> for an
  integer \<open>m\<close> with \<open>\<bar>m\<bar> \<le> B\<close>.  Sums of such numbers incur no rounding as long as they
  stay below \<open>2^53 * 2^k\<close>.
\<close>

definition onGrid :: "int \<Rightarrow> int \<Rightarrow> double \<Rightarrow> bool" where
  "onGrid k B d = (\<exists>m. \<bar>m\<bar> \<le> B \<and> d = Finite (of_int m * 2 powi k))"

section \<open>Data model\<close>

text \<open>
  A landmark is the object \<^verbatim>\<open>{ x, y, z }\<close> that both screens build from a detection
  (\<^verbatim>\<open>results.landmarks[0].map(p => ({ x: p.x, y: p.y, z: p.z || 0 }))\<close>); a frame is the
  array of landmarks of one detection.
\<close>

record landmark =
  px :: double
  py :: double
  pz :: double

type_synonym frame = "landmark list"

text \<open>The document handed to \<^verbatim>\<open>addDoc(collection(db, "embeddings"), ...)\<close>.\<close>

record embeddingRecord =
  embedding :: frame
  timestamp :: int
  userId :: string

text \<open>
  What a JavaScript exception is in the model: reading a property of \<^verbatim>\<open>undefined\<close>
  throws a TypeError; a rejected \<^verbatim>\<open>addDoc\<close> promise throws at its \<^verbatim>\<open>await\<close>.
\<close>

datatype error = TypeError | StoreError

definition frameOnGrid :: "int \<Rightarrow> int \<Rightarrow> frame \<Rightarrow> bool" where
  "frameOnGrid k B frame =
     (\<forall>lm \<in> set frame. onGrid k B (px lm) \<and> onGrid k B (py lm) \<and> onGrid k B (pz lm))"

section \<open>The averaging loop of saveEmbedding\<close>

text \<open>
  \<^verbatim>\<open>holdFramesRef.current.forEach(frame => { sum.x += frame[i].x; ... })\<close> for one index
  \<^verbatim>\<open>i\<close>, with the accumulator \<^verbatim>\<open>sum\<close> (here \<open>acc\<close>).  \<^verbatim>\<open>frame[i]\<close> is \<^verbatim>\<open>undefined\<close> when the frame
  has no index \<^verbatim>\<open>i\<close>, and reading \<^verbatim>\<open>.x\<close> of it throws.
\<close>

fun sumFrames :: "nat \<Rightarrow> frame list \<Rightarrow> landmark \<Rightarrow> error + landmark" where
  "sumFrames i [] acc = Inr acc"
| "sumFrames i (frame # frames) acc =
     (if i < length frame
      then sumFrames i frames
             \<lparr>px = dadd (px acc) (px (frame ! i)),
              py = dadd (py acc) (py (frame ! i)),
              pz = dadd (pz acc) (pz (frame ! i))\<rparr>
      else Inl TypeError)"

text \<open>
  \<^verbatim>\<open>for (let i = 0; i < numLandmarks; i++) { const sum = { x: 0, y: 0, z: 0 }; ...;
  averaged.push({ x: sum.x / holdFramesRef.current.length, ... }) }\<close>, as a recursion over
  the indices still to do, with the array \<^verbatim>\<open>averaged\<close> built so far.
\<close>

fun averageLoop :: "frame list \<Rightarrow> nat list \<Rightarrow> frame \<Rightarrow> error + frame" where
  "averageLoop frames [] averaged = Inr averaged"
| "averageLoop frames (i # idxs) averaged =
     (case sumFrames i frames \<lparr>px = Finite 0, py = Finite 0, pz = Finite 0\<rparr> of
        Inl e \<Rightarrow> Inl e
      | Inr acc \<Rightarrow>
          averageLoop frames idxs
            (averaged @ [\<lparr>px = ddiv (px acc) (Finite (real (length frames))),
                           py = ddiv (py acc) (Finite (real (length frames))),
                           pz = ddiv (pz acc) (Finite (real (length frames)))\<rparr>]))"

text \<open>
  The Embedding Aggregator: the lines between the empty-buffer guard and the store call.
  They run only on a non-empty buffer; \<^verbatim>\<open>numLandmarks\<close> is the length of its first frame.
\<close>

definition averageLandmarks :: "frame list \<Rightarrow> error + frame" where
  "averageLandmarks frames =
     (case frames of
        [] \<Rightarrow> Inl TypeError
      | first # _ \<Rightarrow> averageLoop frames [0..<length first] [])"

text \<open>
  What the loop computes for one coordinate of one index: the numbers are added to 0 from
  left to right, each sum rounded, and the last sum is divided by their count, the
  quotient rounded.
\<close>

definition sumThenDivide :: "double list \<Rightarrow> double" where
  "sumThenDivide ds = ddiv (foldl dadd (Finite 0) ds) (Finite (real (length ds)))"

definition averagedPoint :: "frame list \<Rightarrow> nat \<Rightarrow> landmark" where
  "averagedPoint frames i =
     \<lparr>px = sumThenDivide (map (\<lambda>frame. px (frame ! i)) frames),
      py = sumThenDivide (map (\<lambda>frame. py (frame ! i)) frames),
      pz = sumThenDivide (map (\<lambda>frame. pz (frame ! i)) frames)\<rparr>"

text \<open>
  The arithmetic mean of the spec: the sum of the values of the numbers, divided by their
  count, in the reals.
\<close>

definition arithmeticMean :: "double list \<Rightarrow> real" where
  "arithmeticMean ds = sum_list (map dval ds) / real (length ds)"

text \<open>
  The frame of the spec's round-trip property: every point is the constants
  \<^verbatim>\<open>{ x: 0.3, y: 0.4, z: 0.1 }\<close>.
\<close>

definition constantPoint :: landmark where
  "constantPoint = \<lparr>px = round64 (3 / 10), py = round64 (2 / 5), pz = round64 (1 / 10)\<rparr>"

definition constantFrame :: frame where
  "constantFrame = replicate 21 constantPoint"

text \<open>A frame whose coordinates all are the literal \<open>v\<close>.\<close>

definition uniformFrame :: "real \<Rightarrow> frame" where
  "uniformFrame v = replicate 21 \<lparr>px = round64 v, py = round64 v, pz = round64 v\<rparr>"

text \<open>A frame on the grid of quarters: every point is \<open>(m / 4, 0.5, 0)\<close>.\<close>

definition quarterFrame :: "int \<Rightarrow> frame" where
  "quarterFrame m = replicate 21 \<lparr>px = Finite (of_int m / 4), py = Finite (1 / 2), pz = Finite 0\<rparr>"

section \<open>The two evaluators\<close>

text \<open>\<^verbatim>\<open>isPalmOpen\<close> of the game screen; \<^verbatim>\<open>None\<close> is a null or absent argument.\<close>

definition isPalmOpen :: "frame option \<Rightarrow> bool" where
  "isPalmOpen landmarks =
     (case landmarks of
        None \<Rightarrow> False
      | Some lms \<Rightarrow>
          if length lms < 21 then False
          else
            let middleTip = lms ! 12;
                ringTip = lms ! 16;
                indexTip = lms ! 8;
                pinkyTip = lms ! 20;
                thumbTip = lms ! 4;
                spread = dadd (dadd (dabs (dsub (px indexTip) (px pinkyTip)))
                                    (dabs (dsub (px thumbTip) (px indexTip))))
                              (dabs (dsub (px middleTip) (px ringTip)))
            in dless (round64 (15 / 100)) spread)"


definition GUIDE_BOX_RATIO :: double where
  "GUIDE_BOX_RATIO = round64 (6 / 10)"

text \<open>\<^verbatim>\<open>isHandInBox\<close> of the guided screen.\<close>

definition isHandInBox :: "frame \<Rightarrow> double \<Rightarrow> double \<Rightarrow> bool" where
  "isHandInBox landmarks width height =
     (let cx = ddiv width (Finite 2);
          cy = ddiv height (Finite 2);
          size = dmul (dmin width height) GUIDE_BOX_RATIO
      in list_all
           (\<lambda>lm. let x = dmul (px lm) width; y = dmul (py lm) height
                 in dle (dsub cx (ddiv size (Finite 2))) x \<and> dle x (dadd cx (ddiv size (Finite 2))) \<and>
                    dle (dsub cy (ddiv size (Finite 2))) y \<and> dle y (dadd cy (ddiv size (Finite 2))))
           landmarks)"


section \<open>State shared by the two screens\<close>

text \<open>
  The status line: one constructor for each message passed to \<^verbatim>\<open>setStatus\<close>, with the
  number a template string prints.
  \<^item> \<open>Loading\<close>: "Loading models..."
  \<^item> \<open>MoveInsideBox\<close>: "Move your hand inside the guide box..."
  \<^item> \<open>ShowHandInsideBox\<close>: "Show your hand inside the guide box..."
  \<^item> \<open>KeepInsideBox\<close>: "Keep your hand inside the guide box..."
  \<^item> \<open>MoveYourHand p\<close>: "Move your hand (p%)"
  \<^item> \<open>HoldSteadyFor5\<close>: "Hold your hand steady for 5 seconds..."
  \<^item> \<open>HoldSteady p\<close>: "Hold steady (p%)"
  \<^item> \<open>SavingEmbedding\<close>: "Saving your palm embedding..."
  \<^item> \<open>NoHandTryAgain\<close>: "No hand detected. Try again"
  \<^item> \<open>EmbeddingSaved\<close>: "Palm embedding saved!"
  \<^item> \<open>RulesText s\<close>: "Rules: Move your wrist to the red dot ... Countdown: s"
  \<^item> \<open>GameStarted\<close>: "Game started! Move your wrist to the target."
  \<^item> \<open>GameOver n\<close>: "Game over! Final Score: n"
  \<^item> \<open>ShowOpenPalm\<close>: "Show a wide-open palm for 5 seconds!"
  \<^item> \<open>TimerReset\<close>: "Keep your palm wide open! Timer reset."
  \<^item> \<open>BackToGame\<close>: "Back to game! Move your wrist to the next target."
\<close>

datatype status =
    Loading
  | MoveInsideBox
  | ShowHandInsideBox
  | KeepInsideBox
  | MoveYourHand double
  | HoldSteadyFor5
  | HoldSteady double
  | SavingEmbedding
  | NoHandTryAgain
  | EmbeddingSaved
  | RulesText double
  | GameStarted
  | GameOver double
  | ShowOpenPalm
  | TimerReset
  | BackToGame

text \<open>
  Lines written to the console by the code: \<^verbatim>\<open>console.warn\<close> of a skipped frame,
  \<^verbatim>\<open>console.log("Palm embedding saved!")\<close> and
  \<^verbatim>\<open>console.error("Failed to save embedding:", err)\<close>.
\<close>

datatype logLine = WarnFrameSkipped | LogEmbeddingSaved | ErrorFailedToSave

text \<open>
  The refs and React state both screens hold, and what they have done to the outside so
  far: the documents handed to \<^verbatim>\<open>addDoc\<close>, in order; the exceptions that left
  \<^verbatim>\<open>saveEmbedding\<close> (an async function nobody awaits, so its rejection is handled
  nowhere); the console; the confetti bursts.
\<close>

record 'phase core =
  phaseRef :: 'phase
  phaseStartRef :: double
  holdFramesRef :: "frame list"
  status :: status
  progress :: double
  addDocCalls :: "embeddingRecord list"
  rejections :: "error list"
  console :: "logLine list"
  confettiCount :: nat

text \<open>
  What one run of the loop reads from outside: \<^verbatim>\<open>performance.now()\<close> (a second reading
  where the code reads the clock twice in one run), \<^verbatim>\<open>Date.now()\<close>, the signed-in
  user's id, the canvas size and two draws of \<^verbatim>\<open>Math.random()\<close>.
\<close>

record env =
  perfNow :: double
  perfNow2 :: double
  dateNow :: int
  currentUid :: "string option"
  canvasWidth :: double
  canvasHeight :: double
  random1 :: double
  random2 :: double

text \<open>
  The detector's answer in one run of \<^verbatim>\<open>detectLoop\<close>: the video or the detector is not
  ready (the loop only reschedules itself), \<^verbatim>\<open>detectForVideo\<close> threw, or it returned
  its list of hands, each already mapped to \<^verbatim>\<open>{ x, y, z }\<close> objects.
\<close>

datatype tick = NotReady | DetectFailed | Detected "frame list"

text \<open>How the promise of \<^verbatim>\<open>addDoc\<close> settles.\<close>

datatype outcome = Resolved | Rejected

text \<open>\<^verbatim>\<open>getAuth(app).currentUser?.uid || "unknown"\<close>: an empty id is falsy.\<close>

definition userIdOf :: "env \<Rightarrow> string" where
  "userIdOf e = (case currentUid e of None \<Rightarrow> ''unknown'' | Some u \<Rightarrow> if u = [] then ''unknown'' else u)"

definition embeddingDoc :: "env \<Rightarrow> frame \<Rightarrow> embeddingRecord" where
  "embeddingDoc e averaged = \<lparr>embedding = averaged, timestamp = dateNow e, userId = userIdOf e\<rparr>"

text \<open>The spec's clamp of a progress value, with \<^verbatim>\<open>Math.max\<close> and \<^verbatim>\<open>Math.min\<close>.\<close>

definition clamp :: "double \<Rightarrow> double \<Rightarrow> double \<Rightarrow> double" where
  "clamp v lo hi = dmax lo (dmin v hi)"

section \<open>The guided screen\<close>

datatype guidedPhase = Action | Hold | Done

record guidedState = "guidedPhase core" +
  pendingTimeouts :: nat

definition ACTION_TIME :: double where
  "ACTION_TIME = Finite 4000"

definition HOLD_TIME :: double where
  "HOLD_TIME = Finite 5000"

text \<open>
  \<^verbatim>\<open>saveEmbedding\<close> of the guided screen up to its \<^verbatim>\<open>await\<close>: the guard, the averaging
  loop and the call of \<^verbatim>\<open>addDoc\<close>.  An exception of the loop rejects the function's
  promise before anything is written.
\<close>

definition saveEmbedding_guided :: "env \<Rightarrow> guidedState \<Rightarrow> guidedState" where
  "saveEmbedding_guided e st =
     (if holdFramesRef st = []
      then st\<lparr>status := NoHandTryAgain, phaseRef := Action, progress := Finite 0\<rparr>
      else
        case averageLandmarks (holdFramesRef st) of
          Inl err \<Rightarrow> st\<lparr>rejections := rejections st @ [err]\<rparr>
        | Inr averaged \<Rightarrow> st\<lparr>addDocCalls := addDocCalls st @ [embeddingDoc e averaged]\<rparr>)"

text \<open>
  The rest of the guided \<^verbatim>\<open>saveEmbedding\<close>, run when the promise of \<^verbatim>\<open>addDoc\<close>
  settles.  The \<^verbatim>\<open>await\<close> stands in no \<^verbatim>\<open>try\<close>: a rejection leaves the function
  there, and the confetti, the status and \<^verbatim>\<open>setTimeout\<close> are not reached.
\<close>

definition saveEmbedding_guided_resume :: "outcome \<Rightarrow> guidedState \<Rightarrow> guidedState" where
  "saveEmbedding_guided_resume out st =
     (case out of
        Rejected \<Rightarrow> st\<lparr>rejections := rejections st @ [StoreError]\<rparr>
      | Resolved \<Rightarrow>
          st\<lparr>confettiCount := confettiCount st + 1, status := EmbeddingSaved,
             pendingTimeouts := pendingTimeouts st + 1\<rparr>)"

text \<open>The callback of \<^verbatim>\<open>setTimeout(..., 3000)\<close>; it runs only when one was scheduled.\<close>

definition timeoutFired :: "guidedState \<Rightarrow> guidedState" where
  "timeoutFired st =
     (if pendingTimeouts st = 0 then st
      else st\<lparr>pendingTimeouts := pendingTimeouts st - 1, phaseRef := Action, progress := Finite 0,
              holdFramesRef := [], status := MoveInsideBox\<rparr>)"

definition handleHand :: "env \<Rightarrow> frame \<Rightarrow> guidedState \<Rightarrow> guidedState" where
  "handleHand e landmarks st =
     (if \<not> isHandInBox landmarks (canvasWidth e) (canvasHeight e)
      then st\<lparr>status := KeepInsideBox\<rparr>
      else
        let now = perfNow e;
            elapsed = dsub now (phaseStartRef st)
        in if phaseRef st = Action then
             (let st1 = st\<lparr>progress := dmin (ddiv elapsed ACTION_TIME) (Finite 1),
                            status := MoveYourHand
                              (dfloor (dmin (dmul (ddiv elapsed ACTION_TIME) (Finite 100)) (Finite 100)))\<rparr>
              in if dle ACTION_TIME elapsed
                 then st1\<lparr>phaseRef := Hold, phaseStartRef := now, holdFramesRef := [],
                          progress := Finite 0, status := HoldSteadyFor5\<rparr>
                 else st1)
           else if phaseRef st = Hold then
             (let st1 = st\<lparr>holdFramesRef := holdFramesRef st @ [landmarks],
                            progress := dmin (ddiv elapsed HOLD_TIME) (Finite 1),
                            status := HoldSteady
                              (dfloor (dmin (dmul (ddiv elapsed HOLD_TIME) (Finite 100)) (Finite 100)))\<rparr>
              in if dle HOLD_TIME elapsed
                 then saveEmbedding_guided e
                        (st1\<lparr>progress := Finite 1, status := SavingEmbedding, phaseRef := Done\<rparr>)
                 else st1)
           else st)"

text \<open>One run of the guided \<^verbatim>\<open>detectLoop\<close>.\<close>

definition detectLoop_guided :: "env \<Rightarrow> tick \<Rightarrow> guidedState \<Rightarrow> guidedState" where
  "detectLoop_guided e t st =
     (case t of
        NotReady \<Rightarrow> st
      | DetectFailed \<Rightarrow> st\<lparr>console := console st @ [WarnFrameSkipped]\<rparr>
      | Detected hands \<Rightarrow>
          (case hands of
             landmarks # _ \<Rightarrow> handleHand e landmarks st
           | [] \<Rightarrow>
               st\<lparr>holdFramesRef := [], phaseRef := Action, phaseStartRef := perfNow e,
                  progress := Finite 0, status := ShowHandInsideBox\<rparr>))"

text \<open>The \<^verbatim>\<open>onClick\<close> of the guided screen's button.\<close>

definition startCapture :: "env \<Rightarrow> guidedState \<Rightarrow> guidedState" where
  "startCapture e st = st\<lparr>phaseRef := Action, phaseStartRef := perfNow e, holdFramesRef := []\<rparr>"

section \<open>The game screen\<close>

datatype gamePhase = Idle | Rules | Game | PostHit | Finished

record gameState = "gamePhase core" +
  gameStartRef :: double
  score :: double
  target :: "double \<times> double"
  rulesCountdown :: double
  gameTimeLeft :: double

definition ACTION_HOLD_TIME :: double where
  "ACTION_HOLD_TIME = Finite 5000"

definition RULES_TIME :: double where
  "RULES_TIME = Finite 10000"

definition GAME_TIME :: double where
  "GAME_TIME = Finite 60000"

text \<open>\<^verbatim>\<open>isMobile ? 0.12 : 0.07\<close>; \<^verbatim>\<open>isMobile\<close> is read once from the user agent.\<close>

definition TARGET_RADIUS :: "bool \<Rightarrow> double" where
  "TARGET_RADIUS isMobile = (if isMobile then round64 (12 / 100) else round64 (7 / 100))"

text \<open>
  \<^verbatim>\<open>saveEmbedding\<close> of the game screen up to its \<^verbatim>\<open>await\<close>.  Its guard returns at once
  on an empty buffer.
\<close>

definition saveEmbedding_game :: "env \<Rightarrow> gameState \<Rightarrow> gameState" where
  "saveEmbedding_game e st =
     (if holdFramesRef st = [] then st
      else
        case averageLandmarks (holdFramesRef st) of
          Inl err \<Rightarrow> st\<lparr>rejections := rejections st @ [err]\<rparr>
        | Inr averaged \<Rightarrow> st\<lparr>addDocCalls := addDocCalls st @ [embeddingDoc e averaged]\<rparr>)"

text \<open>
  The rest of the game's \<^verbatim>\<open>saveEmbedding\<close>: the \<^verbatim>\<open>await\<close> stands in a \<^verbatim>\<open>try\<close> whose
  \<^verbatim>\<open>catch\<close> logs the error.
\<close>

definition saveEmbedding_game_resume :: "outcome \<Rightarrow> gameState \<Rightarrow> gameState" where
  "saveEmbedding_game_resume out st =
     (case out of
        Rejected \<Rightarrow> st\<lparr>console := console st @ [ErrorFailedToSave]\<rparr>
      | Resolved \<Rightarrow>
          st\<lparr>confettiCount := confettiCount st + 1, console := console st @ [LogEmbeddingSaved]\<rparr>)"

definition updateRulesPhase :: "env \<Rightarrow> gameState \<Rightarrow> gameState" where
  "updateRulesPhase e st =
     (let now = perfNow e;
          elapsed = dsub now (phaseStartRef st);
          remaining = dmax (Finite 0) (dsub RULES_TIME elapsed);
          st1 = st\<lparr>rulesCountdown := dceil (ddiv remaining (Finite 1000)),
                   status := RulesText (dceil (ddiv remaining (Finite 1000)))\<rparr>
      in if dle RULES_TIME elapsed
         then st1\<lparr>phaseRef := Game, phaseStartRef := now, gameStartRef := now,
                  gameTimeLeft := Finite 60, status := GameStarted\<rparr>
         else st1)"

text \<open>
  \<^verbatim>\<open>updateGamePhase(wrist)\<close>; \<^verbatim>\<open>wrist\<close> is \<^verbatim>\<open>landmarks[0]\<close>, \<^verbatim>\<open>undefined\<close> for a hand
  with no landmark.  Reading \<^verbatim>\<open>wrist.x\<close> then throws, and the \<^verbatim>\<open>catch\<close> of
  \<^verbatim>\<open>detectLoop\<close> warns that the frame was skipped.
\<close>

definition updateGamePhase :: "bool \<Rightarrow> env \<Rightarrow> landmark option \<Rightarrow> gameState \<Rightarrow> gameState" where
  "updateGamePhase isMobile e wrist st =
     (let now = perfNow e;
          elapsed = dsub now (gameStartRef st);
          st1 = st\<lparr>gameTimeLeft :=
                     dmax (Finite 0) (dceil (ddiv (dsub GAME_TIME elapsed) (Finite 1000)))\<rparr>
      in if dle GAME_TIME elapsed
         then st1\<lparr>phaseRef := Finished, status := GameOver (score st)\<rparr>
         else
           case wrist of
             None \<Rightarrow> st1\<lparr>console := console st1 @ [WarnFrameSkipped]\<rparr>
           | Some w \<Rightarrow>
               let dx = dsub (px w) (fst (target st));
                   dy = dsub (py w) (snd (target st))
               in if dless (dsqrt (dadd (dmul dx dx) (dmul dy dy))) (TARGET_RADIUS isMobile)
                  then st1\<lparr>score := dadd (score st) (Finite 1), target := (random1 e, random2 e),
                           phaseRef := PostHit, phaseStartRef := perfNow2 e,
                           holdFramesRef := [], progress := Finite 0, status := ShowOpenPalm\<rparr>
                  else st1)"

definition updatePostHitPhase :: "env \<Rightarrow> frame \<Rightarrow> gameState \<Rightarrow> gameState" where
  "updatePostHitPhase e landmarks st =
     (if \<not> isPalmOpen (Some landmarks)
      then st\<lparr>phaseStartRef := perfNow e, holdFramesRef := [], progress := Finite 0,
              status := TimerReset\<rparr>
      else
        let st1 = st\<lparr>holdFramesRef := holdFramesRef st @ [landmarks]\<rparr>;
            now = perfNow e;
            elapsed = dsub now (phaseStartRef st1);
            st2 = st1\<lparr>progress := dmin (ddiv elapsed ACTION_HOLD_TIME) (Finite 1)\<rparr>
        in if dle ACTION_HOLD_TIME elapsed
           then (saveEmbedding_game e st2)
                  \<lparr>phaseRef := Game, phaseStartRef := now, progress := Finite 0,
                   status := BackToGame, holdFramesRef := []\<rparr>
           else st2)"

text \<open>One run of the game's \<^verbatim>\<open>detectLoop\<close>.\<close>

definition detectLoop_game :: "bool \<Rightarrow> env \<Rightarrow> tick \<Rightarrow> gameState \<Rightarrow> gameState" where
  "detectLoop_game isMobile e t st =
     (case t of
        NotReady \<Rightarrow> st
      | DetectFailed \<Rightarrow> st\<lparr>console := console st @ [WarnFrameSkipped]\<rparr>
      | Detected hands \<Rightarrow>
          (case hands of
             landmarks # _ \<Rightarrow>
               (case phaseRef st of
                  Rules \<Rightarrow> updateRulesPhase e st
                | Game \<Rightarrow>
                    updateGamePhase isMobile e
                      (case landmarks of [] \<Rightarrow> None | wrist # _ \<Rightarrow> Some wrist) st
                | PostHit \<Rightarrow> updatePostHitPhase e landmarks st
                | _ \<Rightarrow> st)
           | [] \<Rightarrow> if phaseRef st = Rules then st\<lparr>rulesCountdown := Finite 7\<rparr> else st))"

text \<open>The \<^verbatim>\<open>onClick\<close> of the start button, which is on screen only in phase \<open>Idle\<close>.\<close>

definition startGame :: "env \<Rightarrow> gameState \<Rightarrow> gameState" where
  "startGame e st = st\<lparr>phaseRef := Rules, phaseStartRef := perfNow e, rulesCountdown := Finite 7\<rparr>"

text \<open>
  What can happen to the game screen once it runs: a run of the loop, or the promise of
  an earlier \<^verbatim>\<open>addDoc\<close> settling.
\<close>

datatype gameEvent = Tick env tick | SaveSettled outcome

fun gameStep :: "bool \<Rightarrow> gameState \<Rightarrow> gameEvent \<Rightarrow> gameState" where
  "gameStep isMobile st (Tick e t) = detectLoop_game isMobile e t st"
| "gameStep isMobile st (SaveSettled out) = saveEmbedding_game_resume out st"

definition gameRun :: "bool \<Rightarrow> gameEvent list \<Rightarrow> gameState \<Rightarrow> gameState" where
  "gameRun isMobile events st = foldl (gameStep isMobile) st events"

section \<open>Initial states and sample inputs\<close>

text \<open>
  The initial values of the refs and of the React state of each screen, as \<^verbatim>\<open>useRef\<close>
  and \<^verbatim>\<open>useState\<close> give them.
\<close>

definition initialGuided :: guidedState where
  "initialGuided =
     \<lparr>phaseRef = Action, phaseStartRef = Finite 0, holdFramesRef = [], status = Loading,
      progress = Finite 0, addDocCalls = [], rejections = [], console = [], confettiCount = 0,
      pendingTimeouts = 0\<rparr>"

definition initialGame :: gameState where
  "initialGame =
     \<lparr>phaseRef = Idle, phaseStartRef = Finite 0, holdFramesRef = [], status = Loading,
      progress = Finite 0, addDocCalls = [], rejections = [], console = [], confettiCount = 0,
      gameStartRef = Finite 0, score = Finite 0, target = (Finite (1 / 2), Finite (1 / 2)),
      rulesCountdown = Finite 7, gameTimeLeft = Finite 30\<rparr>"

text \<open>
  Sample inputs for the closed instances below: the readings of a run of the loop at
  clock time \<open>t\<close> on the 640 by 480 canvas, a frame of 21 landmarks at the centre of the
  image (its spread is 0), and the same frame with the index fingertip moved to
  \<open>x = 0.75\<close> (its spread is 0.5).  All these numbers are binary64 values.
\<close>

definition envAt :: "real \<Rightarrow> env" where
  "envAt t =
     \<lparr>perfNow = Finite t, perfNow2 = Finite t, dateNow = 1700000000000, currentUid = None,
      canvasWidth = Finite 640, canvasHeight = Finite 480,
      random1 = Finite (1 / 4), random2 = Finite (3 / 4)\<rparr>"

definition closedHand :: frame where
  "closedHand = replicate 21 \<lparr>px = Finite (1 / 2), py = Finite (1 / 2), pz = Finite 0\<rparr>"

definition openHand :: frame where
  "openHand = (replicate 21 \<lparr>px = Finite (1 / 2), py = Finite (1 / 2), pz = Finite 0\<rparr>)
                [8 := \<lparr>px = Finite (3 / 4), py = Finite (1 / 2), pz = Finite 0\<rparr>]"



text \<open>Runs of the game's loop in which no hand is detected, one for each reading.\<close>

definition noHandTicks :: "env list \<Rightarrow> gameEvent list" where
  "noHandTicks envs = map (\<lambda>e. Tick e (Detected [])) envs"

text \<open>
  The guided screen at the end of a hold: one in-box frame at clock time 9000, in phase
  \<open>Hold\<close> since 4000.
\<close>

definition holdComplete :: guidedState where
  "holdComplete =
     detectLoop_guided (envAt 9000) (Detected [closedHand])
       (initialGuided\<lparr>phaseRef := Hold, phaseStartRef := Finite 4000\<rparr>)"

section \<open>Rounding\<close>

text \<open>
  What \<open>round64\<close> computes: \<open>ilog2\<close> is the binary exponent; a number \<open>m * 2^k\<close> with
  \<open>\<bar>m\<bar> < 2^53\<close> and \<open>- 1074 \<le> k \<le> 971\<close> is its own rounding; rounding keeps the sign and
  never takes a real below an integer under \<open>2^52\<close> that it is not below.
\<close>

lemma ilog2_bounds:
  "0 < q \<Longrightarrow> 2 powi ilog2 q \<le> q \<and> q < 2 powi (ilog2 q + 1)"
proof (induction q rule: ilog2.induct)
  case (1 q)
  show ?case
  proof (cases "2 \<le> q")
    case True
    then have ih: "2 powi ilog2 (q / 2) \<le> q / 2 \<and> q / 2 < 2 powi (ilog2 (q / 2) + 1)"
      using 1 by simp
    have il: "ilog2 q = ilog2 (q / 2) + 1"
      using True 1(3) by (subst ilog2.simps) simp
    show ?thesis
      using ih unfolding il by (simp add: power_int_add)
  next
    case False
    show ?thesis
    proof (cases "q < 1")
      case True
      then have ih: "2 powi ilog2 (q * 2) \<le> q * 2 \<and> q * 2 < 2 powi (ilog2 (q * 2) + 1)"
        using 1 False by simp
      have il: "ilog2 q = ilog2 (q * 2) - 1"
        using True False 1(3) by (subst ilog2.simps) simp
      show ?thesis
        using ih unfolding il by (simp add: power_int_add power_int_diff)
    next
      case ge: False
      have "ilog2 q = 0"
        using ge False 1(3) by (subst ilog2.simps) simp
      then show ?thesis
        using ge False by simp
    qed
  qed
qed

lemma roundHalfEven_of_int: "roundHalfEven (of_int n) = n"
  by (simp add: roundHalfEven_def)

lemma roundHalfEven_ge_floor: "\<lfloor>q\<rfloor> \<le> roundHalfEven q"
  by (simp add: roundHalfEven_def Let_def)

lemma ilog2_less:
  assumes "0 < q" and "q < 2 powi n"
  shows "ilog2 q < n"
proof (rule ccontr)
  assume "\<not> ilog2 q < n"
  then have "(2::real) powi n \<le> 2 powi ilog2 q"
    by (intro power_int_increasing) simp_all
  then show False
    using ilog2_bounds [OF assms(1)] assms(2) by linarith
qed

lemma round64_exact:
  assumes "\<bar>m\<bar> < 2 ^ 53" and "- 1074 \<le> k" and "k \<le> 971"
  shows "round64 (of_int m * 2 powi k) = Finite (of_int m * 2 powi k)"
proof (cases "m = 0")
  case True
  then show ?thesis
    by (simp add: round64_def)
next
  case False
  define q :: real where "q = of_int m * 2 powi k"
  define e where "e = max (ilog2 \<bar>q\<bar>) (- 1022)"
  have q0: "q \<noteq> 0"
    using False by (simp add: q_def)
  have absq: "\<bar>q\<bar> = of_int \<bar>m\<bar> * 2 powi k"
    by (simp add: q_def abs_mult)
  have "(of_int \<bar>m\<bar> :: real) < of_int (2 ^ 53)"
    using assms(1) by (simp only: of_int_less_iff)
  then have m53: "(of_int \<bar>m\<bar> :: real) < 2 ^ 53"
    by simp
  from m53 have "\<bar>q\<bar> < 2 ^ 53 * 2 powi k"
    unfolding absq by (intro mult_strict_right_mono) simp_all
  then have lt: "\<bar>q\<bar> < 2 powi (53 + k)"
    by (simp add: power_int_add)
  have "ilog2 \<bar>q\<bar> < 53 + k"
    using q0 lt by (intro ilog2_less) simp_all
  then have ek: "e - 52 \<le> k"
    using assms(2) by (simp add: e_def)
  define j where "j = nat (k - (e - 52))"
  have kj: "k = (e - 52) + int j"
    using ek by (simp add: j_def)
  have qu: "q / 2 powi (e - 52) = of_int (m * 2 ^ j)"
    by (simp add: q_def kj power_int_add)
  have r: "of_int (roundHalfEven (q / 2 powi (e - 52))) * 2 powi (e - 52) = q"
    unfolding qu roundHalfEven_of_int by (simp add: q_def kj power_int_add)
  have "2 powi k \<le> (2::real) powi 971"
    using assms(3) by (intro power_int_increasing) simp_all
  then have "\<bar>q\<bar> \<le> of_int \<bar>m\<bar> * 2 powi 971"
    unfolding absq by (intro mult_left_mono) simp_all
  also have "\<dots> < 2 powi 53 * 2 powi 971"
    using m53 by (intro mult_strict_right_mono) simp_all
  also have "\<dots> = 2 powi (53 + 971)"
    by (rule power_int_add [symmetric]) simp
  finally have "\<bar>q\<bar> < 2 powi (53 + 971)" .
  then have fin: "\<not> 2 powi 1024 \<le> \<bar>q\<bar>"
    by simp
  show ?thesis
    using q0 fin r unfolding q_def [symmetric] by (simp add: round64_def Let_def e_def)
qed

lemma round64_of_int: "\<bar>m\<bar> < 2 ^ 53 \<Longrightarrow> round64 (of_int m) = Finite (of_int m)"
  using round64_exact [of m 0] by simp

lemma round64_of_nat: "n < 2 ^ 53 \<Longrightarrow> round64 (real n) = Finite (real n)"
  using round64_of_int [of "int n"] by simp

lemma round64_numeral [simp]:
  "(numeral w :: int) < 2 ^ 53 \<Longrightarrow> round64 (numeral w) = Finite (numeral w)"
  using round64_of_int [of "numeral w"] by simp

lemma round64_zero [simp]: "round64 0 = Finite 0"
  by (simp add: round64_def)

lemma round64_one [simp]: "round64 1 = Finite 1"
  using round64_of_int [of 1] by simp

lemma floor_numeral_divide:
  "\<lfloor>(numeral a :: real) / numeral b\<rfloor> = numeral a div numeral b"
  using floor_divide_of_int_eq [of "numeral a" "numeral b", where ?'a = real] by simp

lemma floor_neg_numeral_divide:
  "\<lfloor>- ((numeral a :: real) / numeral b)\<rfloor> = - numeral a div numeral b"
  using floor_divide_of_int_eq [of "- numeral a" "numeral b", where ?'a = real] by simp

lemmas round64_eval =
  round64_def roundHalfEven_def ilog2.simps Let_def floor_numeral_divide floor_neg_numeral_divide

lemma round64_nonneg: "0 \<le> q \<Longrightarrow> dle (Finite 0) (round64 q)"
proof (cases "q = 0")
  case True
  then show ?thesis
    by simp
next
  case False
  assume "0 \<le> q"
  with False have q: "0 < q"
    by simp
  define u :: real where "u = 2 powi (max (ilog2 q) (- 1022) - 52)"
  have u: "0 < u"
    by (simp add: u_def)
  have "0 \<le> q / u"
    using q u by simp
  then have "0 \<le> \<lfloor>q / u\<rfloor>"
    by simp
  then have "0 \<le> roundHalfEven (q / u)"
    using roundHalfEven_ge_floor [of "q / u"] by linarith
  then have "0 \<le> of_int (roundHalfEven (q / u)) * u"
    using u by simp
  then show ?thesis
    using q unfolding u_def by (simp add: round64_def Let_def)
qed

lemma round64_ge_int:
  assumes "1 \<le> n" and "n < 2 ^ 52" and "of_int n \<le> q"
  shows "dle (Finite (of_int n)) (round64 q)"
proof -
  have n1: "(1::real) \<le> of_int n"
    using assms(1) by simp
  then have q1: "1 \<le> q"
    using assms(3) by linarith
  then have q0: "0 < q" "q \<noteq> 0" "\<bar>q\<bar> = q"
    by simp_all
  define e where "e = ilog2 q"
  have b: "2 powi e \<le> q" "q < 2 powi (e + 1)"
    using ilog2_bounds [OF q0(1)] by (simp_all add: e_def)
  have e0: "0 \<le> e"
  proof (rule ccontr)
    assume "\<not> 0 \<le> e"
    then have "(2::real) powi (e + 1) \<le> 2 powi 0"
      by (intro power_int_increasing) simp_all
    then show False
      using b(2) q1 by simp
  qed
  have emax: "max (ilog2 q) (- 1022) = ilog2 q"
    using e0 by (simp add: e_def)
  define u :: real where "u = 2 powi (e - 52)"
  have u: "0 < u"
    by (simp add: u_def)
  define r where "r = of_int (roundHalfEven (q / u)) * u"
  have fl: "of_int \<lfloor>q / u\<rfloor> * u \<le> r"
    unfolding r_def using roundHalfEven_ge_floor [of "q / u"] u
    by (intro mult_right_mono) simp_all
  have key: "of_int n \<le> r"
  proof (cases "e \<le> 52")
    case True
    define j where "j = nat (52 - e)"
    have ej: "e - 52 = - int j"
      using True by (simp add: j_def)
    have uj: "u = 1 / 2 ^ j"
      unfolding u_def ej by (simp add: power_int_minus field_simps)
    have "of_int n / u \<le> q / u"
      using assms(3) u by (intro divide_right_mono) simp_all
    moreover have nu: "of_int n / u = of_int (n * 2 ^ j)"
      by (simp add: uj)
    ultimately have "n * 2 ^ j \<le> \<lfloor>q / u\<rfloor>"
      by (simp add: le_floor_iff)
    then have "(of_int (n * 2 ^ j) :: real) \<le> of_int \<lfloor>q / u\<rfloor>"
      by (simp only: of_int_le_iff)
    then have "of_int (n * 2 ^ j) * u \<le> of_int \<lfloor>q / u\<rfloor> * u"
      using u by (intro mult_right_mono) simp_all
    moreover have "of_int (n * 2 ^ j) * u = of_int n"
      by (simp add: uj)
    ultimately show ?thesis
      using fl by linarith
  next
    case False
    then have "(2::real) powi 1 \<le> 2 powi (e - 52)"
      by (intro power_int_increasing) simp_all
    then have u2: "2 \<le> u"
      by (simp add: u_def)
    have "2 powi e = 2 powi 52 * u"
      unfolding u_def by (subst power_int_add [symmetric]) simp_all
    then have qu: "2 ^ 52 * u \<le> q"
      using b(1) by simp
    have "q / u < of_int \<lfloor>q / u\<rfloor> + 1"
      by linarith
    then have "q / u * u < (of_int \<lfloor>q / u\<rfloor> + 1) * u"
      using u by (intro mult_strict_right_mono) simp_all
    then have "q < of_int \<lfloor>q / u\<rfloor> * u + u"
      using u by (simp add: distrib_right)
    then have "2 ^ 52 * u - u < r"
      using fl qu by linarith
    moreover have "(2 ^ 52 - 1) * 2 \<le> (2 ^ 52 - 1) * u"
      using u2 by (intro mult_left_mono) simp_all
    moreover have "(of_int n :: real) < of_int (2 ^ 52)"
      using assms(2) by (simp only: of_int_less_iff)
    ultimately show ?thesis
      by (simp add: left_diff_distrib)
  qed
  show ?thesis
    using key q0(1) unfolding r_def u_def e_def by (simp add: round64_def Let_def emax)
qed

lemma roundHalfEven_le_ceiling: "roundHalfEven q \<le> \<lceil>q\<rceil>"
proof -
  have "\<lfloor>q\<rfloor> \<le> \<lceil>q\<rceil>"
    by (rule floor_le_ceiling)
  moreover have "\<lfloor>q\<rfloor> + 1 \<le> \<lceil>q\<rceil>" if "q - of_int \<lfloor>q\<rfloor> \<noteq> 0"
  proof -
    have "of_int \<lfloor>q\<rfloor> < q"
      using that by (metis diff_self floor_eq_iff less_eq_real_def of_int_floor_le)
    then show ?thesis
      by linarith
  qed
  ultimately show ?thesis
    by (auto simp: roundHalfEven_def Let_def)
qed

lemma round64_nonpos: "q \<le> 0 \<Longrightarrow> dle (round64 q) (Finite 0)"
proof (cases "q = 0")
  case True
  then show ?thesis
    by simp
next
  case False
  assume "q \<le> 0"
  with False have q: "q < 0"
    by simp
  define u :: real where "u = 2 powi (max (ilog2 (- q)) (- 1022) - 52)"
  have u: "0 < u"
    by (simp add: u_def)
  have "q / u \<le> 0"
    using q u by (simp add: divide_le_0_iff)
  then have "\<lceil>q / u\<rceil> \<le> 0"
    by (simp add: ceiling_le_iff)
  then have "roundHalfEven (q / u) \<le> 0"
    using roundHalfEven_le_ceiling [of "q / u"] by linarith
  then have "of_int (roundHalfEven (q / u)) * u \<le> 0"
    using u by (simp add: mult_le_0_iff)
  then show ?thesis
    using q unfolding u_def by (simp add: round64_def Let_def)
qed

lemma round64_ge_numeral:
  assumes "(numeral w :: int) < 2 ^ 52" and "numeral w \<le> q"
  shows "dle (Finite (numeral w)) (round64 q)"
  using round64_ge_int [of "numeral w" q] assms by simp

section \<open>Properties of the averaging loop\<close>

lemma sumFrames_foldl:
  "(\<forall>frame \<in> set frames. i < length frame) \<Longrightarrow>
   sumFrames i frames acc =
     Inr \<lparr>px = foldl dadd (px acc) (map (\<lambda>frame. px (frame ! i)) frames),
          py = foldl dadd (py acc) (map (\<lambda>frame. py (frame ! i)) frames),
          pz = foldl dadd (pz acc) (map (\<lambda>frame. pz (frame ! i)) frames)\<rparr>"
  by (induction frames arbitrary: acc) simp_all

lemma averageLoop_map:
  "(\<forall>i \<in> set idxs. \<forall>frame \<in> set frames. i < length frame) \<Longrightarrow>
   averageLoop frames idxs averaged = Inr (averaged @ map (averagedPoint frames) idxs)"
proof (induction idxs arbitrary: averaged)
  case Nil
  then show ?case by simp
next
  case (Cons i idxs)
  have "\<forall>frame \<in> set frames. i < length frame"
    using Cons.prems by simp
  then have s: "sumFrames i frames \<lparr>px = Finite 0, py = Finite 0, pz = Finite 0\<rparr> =
      Inr \<lparr>px = foldl dadd (Finite 0) (map (\<lambda>frame. px (frame ! i)) frames),
           py = foldl dadd (Finite 0) (map (\<lambda>frame. py (frame ! i)) frames),
           pz = foldl dadd (Finite 0) (map (\<lambda>frame. pz (frame ! i)) frames)\<rparr>"
    by (simp add: sumFrames_foldl)
  have "averageLoop frames idxs (averaged @ [averagedPoint frames i]) =
      Inr ((averaged @ [averagedPoint frames i]) @ map (averagedPoint frames) idxs)"
    using Cons.prems by (intro Cons.IH) simp
  then show ?case
    by (simp add: s averagedPoint_def sumThenDivide_def)
qed

lemma averageLandmarks_map:
  assumes "frames \<noteq> []" and "\<forall>frame \<in> set frames. length frame = n"
  shows "averageLandmarks frames = Inr (map (averagedPoint frames) [0..<n])"
proof -
  obtain first rest where fr: "frames = first # rest"
    using assms(1) by (cases frames) auto
  have n: "length first = n"
    using assms(2) fr by simp
  have "averageLoop frames [0..<n] [] = Inr ([] @ map (averagedPoint frames) [0..<n])"
    using assms(2) by (intro averageLoop_map) simp
  then show ?thesis
    by (simp add: averageLandmarks_def fr n)
qed

lemma averageLandmarks_snoc:
  assumes "\<forall>frame \<in> set buffer. length frame = length landmarks"
  shows "averageLandmarks (buffer @ [landmarks]) =
           Inr (map (averagedPoint (buffer @ [landmarks])) [0..<length landmarks])"
  using assms by (intro averageLandmarks_map) auto

lemma averageLandmarks_copies:
  assumes "0 < N"
    and "\<forall>lm \<in> set frame. sumThenDivide (replicate N (px lm)) = px lm \<and>
           sumThenDivide (replicate N (py lm)) = py lm \<and>
           sumThenDivide (replicate N (pz lm)) = pz lm"
  shows "averageLandmarks (replicate N frame) = Inr frame"
proof -
  have ne: "replicate N frame \<noteq> []"
    using assms(1) by simp
  have len: "\<forall>f \<in> set (replicate N frame). length f = length frame"
    by simp
  have "averagedPoint (replicate N frame) i = frame ! i" if "i < length frame" for i
  proof -
    have "frame ! i \<in> set frame"
      using that by simp
    then show ?thesis
      using assms(2) by (simp add: averagedPoint_def map_replicate)
  qed
  then have "map (averagedPoint (replicate N frame)) [0..<length frame] =
      map ((!) frame) [0..<length frame]"
    by (intro map_cong [OF refl]) simp
  then have "map (averagedPoint (replicate N frame)) [0..<length frame] = frame"
    by (simp add: map_nth)
  then show ?thesis
    by (simp add: averageLandmarks_map [OF ne len])
qed

subsection \<open>Sums without rounding\<close>

lemma dadd_onGrid:
  assumes "\<bar>M + m\<bar> < 2 ^ 53" and "- 1074 \<le> k" and "k \<le> 971"
  shows "dadd (Finite (of_int M * 2 powi k)) (Finite (of_int m * 2 powi k)) =
           Finite (of_int (M + m) * 2 powi k)"
  using round64_exact [OF assms] by (simp add: distrib_right)

lemma foldl_dadd_onGrid:
  assumes "- 1074 \<le> k" and "k \<le> 971"
  shows "\<forall>d \<in> set ds. onGrid k B d \<Longrightarrow> \<bar>M\<bar> + int (length ds) * B < 2 ^ 53 \<Longrightarrow>
         foldl dadd (Finite (of_int M * 2 powi k)) ds =
           Finite (of_int M * 2 powi k + sum_list (map dval ds))"
proof (induction ds arbitrary: M)
  case Nil
  then show ?case by simp
next
  case (Cons d ds)
  from Cons.prems(1) obtain m where m: "\<bar>m\<bar> \<le> B" "d = Finite (of_int m * 2 powi k)"
    by (auto simp: onGrid_def)
  have B: "0 \<le> B"
    using m(1) by linarith
  then have nn: "0 \<le> int (length ds) * B"
    by simp
  have "int (length (d # ds)) * B = int (length ds) * B + B"
    by (simp add: distrib_right)
  then have bound: "\<bar>M\<bar> + (int (length ds) * B + B) < 2 ^ 53"
    using Cons.prems(2) by simp
  have small: "\<bar>M + m\<bar> < 2 ^ 53"
    using bound m(1) nn by linarith
  have rest: "\<bar>M + m\<bar> + int (length ds) * B < 2 ^ 53"
    using bound m(1) by linarith
  have step: "dadd (Finite (of_int M * 2 powi k)) d = Finite (of_int (M + m) * 2 powi k)"
    unfolding m(2) by (rule dadd_onGrid [OF small assms])
  have "foldl dadd (Finite (of_int M * 2 powi k)) (d # ds) =
      foldl dadd (Finite (of_int (M + m) * 2 powi k)) ds"
    by (simp only: foldl_Cons step)
  also have "\<dots> = Finite (of_int (M + m) * 2 powi k + sum_list (map dval ds))"
    using Cons.prems(1) rest by (intro Cons.IH) simp_all
  finally show ?case
    by (simp add: m(2) distrib_right)
qed

lemma sumThenDivide_onGrid:
  assumes "- 1074 \<le> k" and "k \<le> 971" and "\<forall>d \<in> set ds. onGrid k B d"
    and "int (length ds) * B < 2 ^ 53" and "ds \<noteq> []"
  shows "sumThenDivide ds = round64 (arithmeticMean ds)"
proof -
  have "foldl dadd (Finite (of_int 0 * 2 powi k)) ds =
      Finite (of_int 0 * 2 powi k + sum_list (map dval ds))"
    using assms(3,4) by (intro foldl_dadd_onGrid [OF assms(1,2)]) simp_all
  then show ?thesis
    using assms(5) by (simp add: sumThenDivide_def arithmeticMean_def)
qed

lemma sumThenDivide_onGrid_mset:
  assumes "- 1074 \<le> k" and "k \<le> 971" and "\<forall>d \<in> set ds. onGrid k B d"
    and "int (length ds) * B < 2 ^ 53" and "ds \<noteq> []" and "mset ds' = mset ds"
  shows "sumThenDivide ds' = sumThenDivide ds"
proof -
  have set: "set ds' = set ds" and len: "length ds' = length ds"
    using assms(6) by (metis mset_eq_setD, metis mset_eq_length)
  have ne: "ds' \<noteq> []"
    using len assms(5) by auto
  have "mset (map dval ds') = mset (map dval ds)"
    using assms(6) by (metis mset_map)
  then have sum: "sum_list (map dval ds') = sum_list (map dval ds)"
    by (metis sum_mset_sum_list)
  have "arithmeticMean ds' = arithmeticMean ds"
    by (simp add: arithmeticMean_def sum len)
  then show ?thesis
    using assms(3,4) set len
    by (simp add: sumThenDivide_onGrid [OF assms(1,2) _ _ ne, of B]
        sumThenDivide_onGrid [OF assms(1,2,3,4,5)])
qed

lemma sumThenDivide_onGrid_replicate:
  assumes "- 1074 \<le> k" and "k \<le> 971" and "onGrid k B d"
    and "int N * B < 2 ^ 53" and "0 < N"
  shows "sumThenDivide (replicate N d) = d"
proof -
  from assms(3) obtain m where m: "\<bar>m\<bar> \<le> B" "d = Finite (of_int m * 2 powi k)"
    by (auto simp: onGrid_def)
  have "B \<le> int N * B"
    using assms(5) m(1) by (simp add: mult_le_cancel_right1) linarith
  then have small: "\<bar>m\<bar> < 2 ^ 53"
    using assms(4) m(1) by linarith
  have "sumThenDivide (replicate N d) = round64 (arithmeticMean (replicate N d))"
    using assms by (intro sumThenDivide_onGrid [where B = B and k = k]) simp_all
  also have "arithmeticMean (replicate N d) = of_int m * 2 powi k"
    using assms(5) by (simp add: arithmeticMean_def m(2) sum_list_replicate)
  finally show ?thesis
    by (simp add: round64_exact [OF small assms(1,2)] m(2))
qed

lemma averagedPoint_onGrid:
  assumes "- 1074 \<le> k" and "k \<le> 971" and "frames \<noteq> []"
    and "\<forall>frame \<in> set frames. length frame = n \<and> frameOnGrid k B frame"
    and "int (length frames) * B < 2 ^ 53" and "i < n"
  shows "averagedPoint frames i =
     \<lparr>px = round64 (arithmeticMean (map (\<lambda>frame. px (frame ! i)) frames)),
      py = round64 (arithmeticMean (map (\<lambda>frame. py (frame ! i)) frames)),
      pz = round64 (arithmeticMean (map (\<lambda>frame. pz (frame ! i)) frames))\<rparr>"
proof -
  have coord: "sumThenDivide (map (\<lambda>frame. c (frame ! i)) frames) =
      round64 (arithmeticMean (map (\<lambda>frame. c (frame ! i)) frames))"
    if c: "\<And>lm frame. frame \<in> set frames \<Longrightarrow> lm \<in> set frame \<Longrightarrow> onGrid k B (c lm)"
    for c :: "landmark \<Rightarrow> double"
  proof (rule sumThenDivide_onGrid [OF assms(1,2), where B = B])
    show "\<forall>d \<in> set (map (\<lambda>frame. c (frame ! i)) frames). onGrid k B d"
      using assms(4,6) c by auto
    show "int (length (map (\<lambda>frame. c (frame ! i)) frames)) * B < 2 ^ 53"
      using assms(5) by simp
    show "map (\<lambda>frame. c (frame ! i)) frames \<noteq> []"
      using assms(3) by simp
  qed
  have "sumThenDivide (map (\<lambda>frame. px (frame ! i)) frames) =
      round64 (arithmeticMean (map (\<lambda>frame. px (frame ! i)) frames))"
    "sumThenDivide (map (\<lambda>frame. py (frame ! i)) frames) =
      round64 (arithmeticMean (map (\<lambda>frame. py (frame ! i)) frames))"
    "sumThenDivide (map (\<lambda>frame. pz (frame ! i)) frames) =
      round64 (arithmeticMean (map (\<lambda>frame. pz (frame ! i)) frames))"
    using assms(4) by (auto intro!: coord simp: frameOnGrid_def)
  then show ?thesis
    by (simp add: averagedPoint_def)
qed

lemma arithmeticMean_mset:
  assumes "mset frames' = mset frames"
  shows "arithmeticMean (map g frames') = arithmeticMean (map g frames)"
proof -
  have "mset (map (dval \<circ> g) frames') = mset (map (dval \<circ> g) frames)"
    using assms by (metis mset_map)
  then have "sum_list (map (dval \<circ> g) frames') = sum_list (map (dval \<circ> g) frames)"
    by (metis sum_mset_sum_list)
  moreover have "length frames' = length frames"
    using assms by (metis mset_eq_length)
  ultimately show ?thesis
    by (simp add: arithmeticMean_def)
qed

lemma averageLandmarks_onGrid_mset:
  assumes "- 1074 \<le> k" and "k \<le> 971" and "frames \<noteq> []"
    and "\<forall>frame \<in> set frames. length frame = n \<and> frameOnGrid k B frame"
    and "int (length frames) * B < 2 ^ 53" and "mset frames' = mset frames"
  shows "averageLandmarks frames' = averageLandmarks frames"
proof -
  have ne: "frames' \<noteq> []"
    using assms(3,6) by auto
  have len: "\<forall>frame \<in> set frames. length frame = n"
    using assms(4) by simp
  have all': "\<forall>frame \<in> set frames'. length frame = n \<and> frameOnGrid k B frame"
    using assms(4,6) by (metis mset_eq_setD)
  then have len': "\<forall>frame \<in> set frames'. length frame = n"
    by simp
  have N': "int (length frames') * B < 2 ^ 53"
    using assms(5,6) by (metis mset_eq_length)
  have "map (averagedPoint frames') [0..<n] = map (averagedPoint frames) [0..<n]"
    by (rule map_cong [OF refl])
      (simp add: averagedPoint_onGrid [OF assms(1,2,3,4,5)]
        averagedPoint_onGrid [OF assms(1,2) ne all' N'] arithmeticMean_mset [OF assms(6)])
  then show ?thesis
    by (simp add: averageLandmarks_map [OF ne len'] averageLandmarks_map [OF assms(3) len])
qed

lemma averageLandmarks_onGrid_replicate:
  assumes "- 1074 \<le> k" and "k \<le> 971" and "frameOnGrid k B frame"
    and "int N * B < 2 ^ 53" and "0 < N"
  shows "averageLandmarks (replicate N frame) = Inr frame"
  using assms(3)
  by (intro averageLandmarks_copies [OF assms(5)])
    (simp add: frameOnGrid_def sumThenDivide_onGrid_replicate [OF assms(1,2) _ assms(4,5)])

lemma quarterFrame_onGrid: "\<bar>m\<bar> \<le> 4 \<Longrightarrow> frameOnGrid (- 2) 4 (quarterFrame m)"
proof -
  assume m: "\<bar>m\<bar> \<le> 4"
  have "onGrid (- 2) 4 (Finite (of_int m / 4))"
    unfolding onGrid_def using m by (intro exI [of _ m]) simp
  moreover have "onGrid (- 2) 4 (Finite (1 / 2))"
    unfolding onGrid_def by (intro exI [of _ 2]) simp
  moreover have "onGrid (- 2) 4 (Finite 0)"
    unfolding onGrid_def by (intro exI [of _ 0]) simp
  ultimately show ?thesis
    by (simp add: frameOnGrid_def quarterFrame_def)
qed

subsection \<open>Sums with rounding: the literals 0.1, 0.2, 0.3 and 0.4\<close>

lemma round64_tenth: "round64 (1 / 10) = Finite (3602879701896397 / 2 ^ 55)"
  by (simp add: round64_eval)

lemma round64_fifth: "round64 (1 / 5) = Finite (3602879701896397 / 2 ^ 54)"
  by (simp add: round64_eval)

lemma round64_three_tenths: "round64 (3 / 10) = Finite (5404319552844595 / 2 ^ 54)"
  by (simp add: round64_eval)

lemma round64_two_fifths: "round64 (2 / 5) = Finite (3602879701896397 / 2 ^ 53)"
  by (simp add: round64_eval)

lemma sumThenDivide_tenth:
  "sumThenDivide [round64 (1 / 10)] = round64 (1 / 10)"
  "sumThenDivide (replicate 2 (round64 (1 / 10))) = round64 (1 / 10)"
  "sumThenDivide (replicate 3 (round64 (1 / 10))) = Finite (7205759403792795 / 2 ^ 56)"
  "sumThenDivide (replicate 4 (round64 (1 / 10))) = round64 (1 / 10)"
  "sumThenDivide (replicate 5 (round64 (1 / 10))) = round64 (1 / 10)"
  by (simp_all add: sumThenDivide_def eval_nat_numeral round64_eval)

lemma sumThenDivide_two_fifths:
  "sumThenDivide [round64 (2 / 5)] = round64 (2 / 5)"
  "sumThenDivide (replicate 2 (round64 (2 / 5))) = round64 (2 / 5)"
  "sumThenDivide (replicate 3 (round64 (2 / 5))) = Finite (7205759403792795 / 2 ^ 54)"
  "sumThenDivide (replicate 4 (round64 (2 / 5))) = round64 (2 / 5)"
  "sumThenDivide (replicate 5 (round64 (2 / 5))) = round64 (2 / 5)"
  by (simp_all add: sumThenDivide_def eval_nat_numeral round64_eval)

lemma sumThenDivide_three_tenths:
  "sumThenDivide [round64 (3 / 10)] = round64 (3 / 10)"
  "sumThenDivide (replicate 2 (round64 (3 / 10))) = round64 (3 / 10)"
  "sumThenDivide (replicate 4 (round64 (3 / 10))) = round64 (3 / 10)"
  "sumThenDivide (replicate 5 (round64 (3 / 10))) = round64 (3 / 10)"
  by (simp_all add: sumThenDivide_def eval_nat_numeral round64_eval)

lemma sumThenDivide_ascending:
  "sumThenDivide [round64 (1 / 10), round64 (1 / 5), round64 (3 / 10)] =
     Finite (7205759403792795 / 2 ^ 55)"
  by (simp add: sumThenDivide_def round64_eval)

lemma sumThenDivide_descending:
  "sumThenDivide [round64 (3 / 10), round64 (1 / 5), round64 (1 / 10)] =
     Finite (7205759403792793 / 2 ^ 55)"
  by (simp add: sumThenDivide_def round64_eval)

lemma averageLandmarks_uniform_two_fifths:
  "averageLandmarks (replicate 3 (uniformFrame (2 / 5))) =
     Inr (replicate 21 \<lparr>px = Finite (7205759403792795 / 2 ^ 54),
                         py = Finite (7205759403792795 / 2 ^ 54),
                         pz = Finite (7205759403792795 / 2 ^ 54)\<rparr>)"
proof -
  have ne: "replicate 3 (uniformFrame (2 / 5)) \<noteq> []"
    by simp
  have len: "\<forall>frame \<in> set (replicate 3 (uniformFrame (2 / 5))). length frame = 21"
    by (simp add: uniformFrame_def)
  have "averagedPoint (replicate 3 (uniformFrame (2 / 5))) i =
      \<lparr>px = Finite (7205759403792795 / 2 ^ 54), py = Finite (7205759403792795 / 2 ^ 54),
       pz = Finite (7205759403792795 / 2 ^ 54)\<rparr>" if "i < 21" for i
    using that
    by (simp add: averagedPoint_def map_replicate uniformFrame_def sumThenDivide_two_fifths)
  then have "map (averagedPoint (replicate 3 (uniformFrame (2 / 5)))) [0..<21] =
      map (\<lambda>i. \<lparr>px = Finite (7205759403792795 / 2 ^ 54), py = Finite (7205759403792795 / 2 ^ 54),
                 pz = Finite (7205759403792795 / 2 ^ 54)\<rparr>) [0..<21]"
    by (intro map_cong [OF refl]) simp
  then show ?thesis
    by (simp add: averageLandmarks_map [OF ne len] map_replicate_const del: upt_Suc)
qed

text \<open>
  Claim C2, as stated, on the code's numbers.  Three frames with every coordinate \<open>0.4\<close>
  average to \<open>0.4000000000000001\<close> at every coordinate: \<open>0 + 0.4 + 0.4 + 0.4\<close> rounds to
  \<open>1.2000000000000002\<close>, and its third rounds to \<open>0.4000000000000001\<close>.  The arithmetic
  mean of the three values is the value of \<open>0.4\<close>.
\<close>

theorem averageLandmarks_mean_counterexample:
  "\<exists>out. averageLandmarks (replicate 3 (uniformFrame (2 / 5))) = Inr out \<and>
         length out = 21 \<and>
         arithmeticMean (map (\<lambda>frame. px (frame ! 0)) (replicate 3 (uniformFrame (2 / 5)))) =
           dval (round64 (2 / 5)) \<and>
         dval (px (out ! 0)) \<noteq>
           arithmeticMean (map (\<lambda>frame. px (frame ! 0)) (replicate 3 (uniformFrame (2 / 5))))"
proof -
  have mean: "arithmeticMean (map (\<lambda>frame. px (frame ! 0)) (replicate 3 (uniformFrame (2 / 5)))) =
      dval (round64 (2 / 5))"
    by (simp add: arithmeticMean_def uniformFrame_def sum_list_replicate)
  show ?thesis
    unfolding mean by (simp add: averageLandmarks_uniform_two_fifths round64_two_fifths)
qed

text \<open>
  Claim C2, amended.  For a non-empty buffer of frames of one length \<open>n\<close>, the averaging
  loop returns a frame of length \<open>n\<close>, and at every index each of its coordinates is the
  binary64 sum of that coordinate over the buffer's frames, taken from 0 in buffer order
  with every addition rounded, divided by the number of frames, the quotient rounded.
  When every coordinate of the buffer is \<open>m * 2^k\<close> for one \<open>k\<close> with \<open>- 1074 \<le> k \<le> 971\<close>
  and integers \<open>\<bar>m\<bar> \<le> B\<close> with \<open>N * B < 2^53\<close> for the \<open>N\<close> frames of the buffer, each
  coordinate of the output is the arithmetic mean of the values, rounded to the nearest
  binary64 number.
\<close>

theorem averageLandmarks_mean:
  assumes "frames \<noteq> []" and "\<forall>frame \<in> set frames. length frame = n"
  shows "\<exists>out. averageLandmarks frames = Inr out \<and> length out = n \<and>
           (\<forall>i<n. px (out ! i) =
                    ddiv (foldl dadd (Finite 0) (map (\<lambda>frame. px (frame ! i)) frames))
                         (Finite (real (length frames))) \<and>
                  py (out ! i) =
                    ddiv (foldl dadd (Finite 0) (map (\<lambda>frame. py (frame ! i)) frames))
                         (Finite (real (length frames))) \<and>
                  pz (out ! i) =
                    ddiv (foldl dadd (Finite 0) (map (\<lambda>frame. pz (frame ! i)) frames))
                         (Finite (real (length frames)))) \<and>
           (- 1074 \<le> k \<and> k \<le> 971 \<and> (\<forall>frame \<in> set frames. frameOnGrid k B frame) \<and>
            int (length frames) * B < 2 ^ 53 \<longrightarrow>
              (\<forall>i<n. px (out ! i) = round64 (arithmeticMean (map (\<lambda>frame. px (frame ! i)) frames)) \<and>
                     py (out ! i) = round64 (arithmeticMean (map (\<lambda>frame. py (frame ! i)) frames)) \<and>
                     pz (out ! i) = round64 (arithmeticMean (map (\<lambda>frame. pz (frame ! i)) frames))))"
proof (intro exI conjI)
  show "averageLandmarks frames = Inr (map (averagedPoint frames) [0..<n])"
    by (rule averageLandmarks_map [OF assms])
  show "length (map (averagedPoint frames) [0..<n]) = n"
    by simp
  show "\<forall>i<n. px (map (averagedPoint frames) [0..<n] ! i) =
                 ddiv (foldl dadd (Finite 0) (map (\<lambda>frame. px (frame ! i)) frames))
                      (Finite (real (length frames))) \<and>
               py (map (averagedPoint frames) [0..<n] ! i) =
                 ddiv (foldl dadd (Finite 0) (map (\<lambda>frame. py (frame ! i)) frames))
                      (Finite (real (length frames))) \<and>
               pz (map (averagedPoint frames) [0..<n] ! i) =
                 ddiv (foldl dadd (Finite 0) (map (\<lambda>frame. pz (frame ! i)) frames))
                      (Finite (real (length frames)))"
    by (simp add: averagedPoint_def sumThenDivide_def)
  show "- 1074 \<le> k \<and> k \<le> 971 \<and> (\<forall>frame \<in> set frames. frameOnGrid k B frame) \<and>
      int (length frames) * B < 2 ^ 53 \<longrightarrow>
      (\<forall>i<n. px (map (averagedPoint frames) [0..<n] ! i) =
                round64 (arithmeticMean (map (\<lambda>frame. px (frame ! i)) frames)) \<and>
              py (map (averagedPoint frames) [0..<n] ! i) =
                round64 (arithmeticMean (map (\<lambda>frame. py (frame ! i)) frames)) \<and>
              pz (map (averagedPoint frames) [0..<n] ! i) =
                round64 (arithmeticMean (map (\<lambda>frame. pz (frame ! i)) frames)))"
  proof (intro impI allI)
    fix i
    assume g: "- 1074 \<le> k \<and> k \<le> 971 \<and> (\<forall>frame \<in> set frames. frameOnGrid k B frame) \<and>
      int (length frames) * B < 2 ^ 53" and i: "i < n"
    have all: "\<forall>frame \<in> set frames. length frame = n \<and> frameOnGrid k B frame"
      using g assms(2) by simp
    show "px (map (averagedPoint frames) [0..<n] ! i) =
            round64 (arithmeticMean (map (\<lambda>frame. px (frame ! i)) frames)) \<and>
          py (map (averagedPoint frames) [0..<n] ! i) =
            round64 (arithmeticMean (map (\<lambda>frame. py (frame ! i)) frames)) \<and>
          pz (map (averagedPoint frames) [0..<n] ! i) =
            round64 (arithmeticMean (map (\<lambda>frame. pz (frame ! i)) frames))"
      using g i by (simp add: averagedPoint_onGrid [OF _ _ assms(1) all _ i])
  qed
qed

theorem averageLandmarks_mean_witness:
  "\<exists>out. averageLandmarks [quarterFrame 1, quarterFrame 3] = Inr out \<and> length out = 21 \<and>
         px (out ! 20) = Finite (1 / 2) \<and> py (out ! 20) = Finite (1 / 2) \<and>
         pz (out ! 20) = Finite 0"
proof -
  have g: "\<forall>frame \<in> set [quarterFrame 1, quarterFrame 3]. frameOnGrid (- 2) 4 frame"
    by (simp add: quarterFrame_onGrid)
  have r: "round64 (1 / 2) = Finite (1 / 2)"
    by (simp add: round64_eval)
  from averageLandmarks_mean [of "[quarterFrame 1, quarterFrame 3]" 21 "- 2" 4]
  obtain out where out: "averageLandmarks [quarterFrame 1, quarterFrame 3] = Inr out"
    "length out = 21"
    "px (out ! 20) = round64 (arithmeticMean (map (\<lambda>frame. px (frame ! 20)) [quarterFrame 1, quarterFrame 3]))"
    "py (out ! 20) = round64 (arithmeticMean (map (\<lambda>frame. py (frame ! 20)) [quarterFrame 1, quarterFrame 3]))"
    "pz (out ! 20) = round64 (arithmeticMean (map (\<lambda>frame. pz (frame ! 20)) [quarterFrame 1, quarterFrame 3]))"
    using g by (auto simp: quarterFrame_def)
  show ?thesis
    using out by (simp add: arithmeticMean_def quarterFrame_def r)
qed

lemma averageLandmarks_binary64_copies:
  "averageLandmarks (replicate 3 constantFrame) \<noteq> Inr constantFrame"
proof
  assume eq: "averageLandmarks (replicate 3 constantFrame) = Inr constantFrame"
  have ne: "replicate 3 constantFrame \<noteq> []"
    by simp
  have len: "\<forall>frame \<in> set (replicate 3 constantFrame). length frame = 21"
    by (simp add: constantFrame_def)
  have "map (averagedPoint (replicate 3 constantFrame)) [0..<21] = constantFrame"
    using eq by (simp add: averageLandmarks_map [OF ne len])
  then have "map (averagedPoint (replicate 3 constantFrame)) [0..<21] ! 0 = constantFrame ! 0"
    by simp
  then have "averagedPoint (replicate 3 constantFrame) 0 = constantPoint"
    by (simp add: constantFrame_def del: upt_Suc)
  then have "pz (averagedPoint (replicate 3 constantFrame) 0) = pz constantPoint"
    by simp
  then have "sumThenDivide (replicate 3 (round64 (1 / 10))) = round64 (1 / 10)"
    by (simp add: averagedPoint_def constantFrame_def constantPoint_def map_replicate)
  then show False
    by (simp only: sumThenDivide_tenth) (simp add: round64_tenth)
qed

lemma averageLandmarks_binary64_order:
  "averageLandmarks [uniformFrame (1 / 10), uniformFrame (1 / 5), uniformFrame (3 / 10)] \<noteq>
   averageLandmarks [uniformFrame (3 / 10), uniformFrame (1 / 5), uniformFrame (1 / 10)]"
proof
  let ?up = "[uniformFrame (1 / 10), uniformFrame (1 / 5), uniformFrame (3 / 10)]"
  let ?down = "[uniformFrame (3 / 10), uniformFrame (1 / 5), uniformFrame (1 / 10)]"
  assume eq: "averageLandmarks ?up = averageLandmarks ?down"
  have up: "averageLandmarks ?up = Inr (map (averagedPoint ?up) [0..<21])"
    by (rule averageLandmarks_map) (simp_all add: uniformFrame_def)
  have down: "averageLandmarks ?down = Inr (map (averagedPoint ?down) [0..<21])"
    by (rule averageLandmarks_map) (simp_all add: uniformFrame_def)
  have "map (averagedPoint ?up) [0..<21] ! 0 = map (averagedPoint ?down) [0..<21] ! 0"
    using eq unfolding up down by simp
  then have "averagedPoint ?up 0 = averagedPoint ?down 0"
    by (simp del: upt_Suc)
  then have "px (averagedPoint ?up 0) = px (averagedPoint ?down 0)"
    by simp
  then have "sumThenDivide [round64 (1 / 10), round64 (1 / 5), round64 (3 / 10)] =
      sumThenDivide [round64 (3 / 10), round64 (1 / 5), round64 (1 / 10)]"
    by (simp add: averagedPoint_def uniformFrame_def)
  then show False
    by (simp add: sumThenDivide_ascending sumThenDivide_descending)
qed

lemma averageLandmarks_constant_copies:
  assumes "N \<in> {1, 2, 4, 5}"
  shows "averageLandmarks (replicate N constantFrame) = Inr constantFrame"
proof -
  have N: "0 < N"
    using assms by auto
  have "sumThenDivide (replicate N (round64 (3 / 10))) = round64 (3 / 10) \<and>
      sumThenDivide (replicate N (round64 (2 / 5))) = round64 (2 / 5) \<and>
      sumThenDivide (replicate N (round64 (1 / 10))) = round64 (1 / 10)"
    using assms
    by (auto simp: sumThenDivide_tenth sumThenDivide_two_fifths sumThenDivide_three_tenths)
  then show ?thesis
    by (intro averageLandmarks_copies [OF N]) (simp add: constantFrame_def constantPoint_def)
qed

text \<open>
  Claim C7, as stated, on the code's numbers.  Three copies of the constant frame
  (\<open>x = 0.3\<close>, \<open>y = 0.4\<close>, \<open>z = 0.1\<close>) do not average to that frame: the sum
  \<open>0 + 0.1 + 0.1 + 0.1\<close> rounds to \<open>0.30000000000000004\<close>, and its third rounds to
  \<open>0.10000000000000002\<close>.  And the order of the frames matters: coordinates \<open>0.1\<close>,
  \<open>0.2\<close>, \<open>0.3\<close> average to \<open>0.20000000000000004\<close> in this order and to
  \<open>0.19999999999999998\<close> in the reverse order.
\<close>

theorem averageLandmarks_binary64_counterexample:
  "averageLandmarks (replicate 3 constantFrame) \<noteq> Inr constantFrame \<and>
   averageLandmarks [uniformFrame (1 / 10), uniformFrame (1 / 5), uniformFrame (3 / 10)] \<noteq>
   averageLandmarks [uniformFrame (3 / 10), uniformFrame (1 / 5), uniformFrame (1 / 10)]"
  using averageLandmarks_binary64_copies averageLandmarks_binary64_order by (rule conjI)

text \<open>
  Claim C7, amended.  When every coordinate of a non-empty buffer of frames of one length
  is \<open>m * 2^k\<close> for one \<open>k\<close> with \<open>- 1074 \<le> k \<le> 971\<close> and integers \<open>\<bar>m\<bar> \<le> B\<close> with
  \<open>N * B < 2^53\<close> for the \<open>N\<close> frames of the buffer, the average is the same for every
  permutation of the buffer; and \<open>N > 0\<close> copies of one such frame average to that
  frame.  A buffer of 1, 2, 4 or 5 copies of the constant frame (\<open>x = 0.3\<close>, \<open>y = 0.4\<close>,
  \<open>z = 0.1\<close> at every point) averages to the constant frame.
\<close>

theorem averageLandmarks_unrounded_laws:
  "(- 1074 \<le> k \<and> k \<le> 971 \<and> frames \<noteq> [] \<and>
    (\<forall>frame \<in> set frames. length frame = n \<and> frameOnGrid k B frame) \<and>
    int (length frames) * B < 2 ^ 53 \<and> mset frames' = mset frames \<longrightarrow>
      averageLandmarks frames' = averageLandmarks frames) \<and>
   (- 1074 \<le> k \<and> k \<le> 971 \<and> 0 < N \<and> frameOnGrid k B frame \<and> int N * B < 2 ^ 53 \<longrightarrow>
      averageLandmarks (replicate N frame) = Inr frame) \<and>
   (M \<in> {1, 2, 4, 5} \<longrightarrow> averageLandmarks (replicate M constantFrame) = Inr constantFrame)"
proof (intro conjI impI)
  assume "- 1074 \<le> k \<and> k \<le> 971 \<and> frames \<noteq> [] \<and>
    (\<forall>frame \<in> set frames. length frame = n \<and> frameOnGrid k B frame) \<and>
    int (length frames) * B < 2 ^ 53 \<and> mset frames' = mset frames"
  then show "averageLandmarks frames' = averageLandmarks frames"
    using averageLandmarks_onGrid_mset [of k frames n B frames'] by blast
next
  assume "- 1074 \<le> k \<and> k \<le> 971 \<and> 0 < N \<and> frameOnGrid k B frame \<and> int N * B < 2 ^ 53"
  then show "averageLandmarks (replicate N frame) = Inr frame"
    using averageLandmarks_onGrid_replicate [of k B frame N] by blast
next
  assume "M \<in> {1, 2, 4, 5}"
  then show "averageLandmarks (replicate M constantFrame) = Inr constantFrame"
    by (rule averageLandmarks_constant_copies)
qed

theorem averageLandmarks_unrounded_laws_witness:
  "averageLandmarks [quarterFrame 3, quarterFrame 2, quarterFrame 1] =
     averageLandmarks [quarterFrame 1, quarterFrame 2, quarterFrame 3] \<and>
   averageLandmarks (replicate 3 (quarterFrame 3)) = Inr (quarterFrame 3) \<and>
   averageLandmarks (replicate 5 constantFrame) = Inr constantFrame"
proof -
  have g: "\<forall>frame \<in> set [quarterFrame 1, quarterFrame 2, quarterFrame 3].
      length frame = 21 \<and> frameOnGrid (- 2) 4 frame"
    by (simp add: quarterFrame_onGrid) (simp add: quarterFrame_def)
  show ?thesis
    using averageLandmarks_unrounded_laws
      [of "- 2" "[quarterFrame 1, quarterFrame 2, quarterFrame 3]" 21 4
          "[quarterFrame 3, quarterFrame 2, quarterFrame 1]" 3 "quarterFrame 3" 5]
      g quarterFrame_onGrid [of 3]
    by simp
qed

section \<open>Properties of the evaluators\<close>

lemma isPalmOpen_eq:
  "21 \<le> length lms \<Longrightarrow>
   isPalmOpen (Some lms) =
     dless (round64 (15 / 100))
       (dadd (dadd (dabs (dsub (px (lms ! 8)) (px (lms ! 20))))
                   (dabs (dsub (px (lms ! 4)) (px (lms ! 8)))))
             (dabs (dsub (px (lms ! 12)) (px (lms ! 16)))))"
  by (simp add: isPalmOpen_def Let_def)




lemma isHandInBox_iff:
  "isHandInBox landmarks width height \<longleftrightarrow>
     (\<forall>lm \<in> set landmarks.
        dle (dsub (ddiv width (Finite 2))
                  (ddiv (dmul (dmin width height) (round64 (6 / 10))) (Finite 2)))
            (dmul (px lm) width) \<and>
        dle (dmul (px lm) width)
            (dadd (ddiv width (Finite 2))
                  (ddiv (dmul (dmin width height) (round64 (6 / 10))) (Finite 2))) \<and>
        dle (dsub (ddiv height (Finite 2))
                  (ddiv (dmul (dmin width height) (round64 (6 / 10))) (Finite 2)))
            (dmul (py lm) height) \<and>
        dle (dmul (py lm) height)
            (dadd (ddiv height (Finite 2))
                  (ddiv (dmul (dmin width height) (round64 (6 / 10))) (Finite 2))))"
  by (simp add: isHandInBox_def GUIDE_BOX_RATIO_def Let_def list_all_iff)



lemma box_640_480:
  "ddiv (Finite 640) (Finite 2) = Finite 320"
  "ddiv (Finite 480) (Finite 2) = Finite 240"
  "ddiv (dmul (dmin (Finite 640) (Finite 480)) (round64 (6 / 10))) (Finite 2) = Finite 144"
  by (simp_all add: dmin_def round64_eval)


lemma closedHand_inBox: "isHandInBox closedHand (canvasWidth (envAt t)) (canvasHeight (envAt t))"
  unfolding isHandInBox_iff envAt_def
  by (simp add: closedHand_def dmin_def round64_eval)

lemma openHand_open: "isPalmOpen (Some openHand)"
  by (simp add: isPalmOpen_def openHand_def round64_eval)

lemma closedHand_closed: "\<not> isPalmOpen (Some closedHand)"
  by (simp add: isPalmOpen_def closedHand_def round64_eval)

section \<open>Properties of the guided screen\<close>

lemma closedHand_onGrid: "frameOnGrid (- 2) 3 closedHand"
proof -
  have "onGrid (- 2) 3 (Finite (1 / 2))"
    unfolding onGrid_def by (intro exI [of _ 2]) simp
  moreover have "onGrid (- 2) 3 (Finite 0)"
    unfolding onGrid_def by (intro exI [of _ 0]) simp
  ultimately show ?thesis
    by (simp add: frameOnGrid_def closedHand_def)
qed

lemma openHand_onGrid: "frameOnGrid (- 2) 3 openHand"
proof -
  have g: "onGrid (- 2) 3 (Finite (1 / 2))" "onGrid (- 2) 3 (Finite 0)" "onGrid (- 2) 3 (Finite (3 / 4))"
    unfolding onGrid_def by (intro exI [of _ 2], simp, intro exI [of _ 0], simp, intro exI [of _ 3], simp)
  have "set openHand \<subseteq>
      insert \<lparr>px = Finite (3 / 4), py = Finite (1 / 2), pz = Finite 0\<rparr>
        (set (replicate 21 \<lparr>px = Finite (1 / 2), py = Finite (1 / 2), pz = Finite 0\<rparr>))"
    unfolding openHand_def by (rule set_update_subset_insert)
  then show ?thesis
    using g by (auto simp: frameOnGrid_def)
qed

lemma averageLandmarks_single: "averageLandmarks [closedHand] = Inr closedHand"
  using averageLandmarks_onGrid_replicate [of "- 2" 3 closedHand 1] closedHand_onGrid by simp

lemma averageLandmarks_pair: "averageLandmarks [openHand, openHand] = Inr openHand"
  using averageLandmarks_onGrid_replicate [of "- 2" 3 openHand 2] openHand_onGrid
  by (simp add: numeral_2_eq_2)

lemma saveEmbedding_guided_nonempty:
  assumes "holdFramesRef st = buffer @ [landmarks]"
    and "\<forall>frame \<in> set buffer. length frame = length landmarks"
  shows "saveEmbedding_guided e st =
           st\<lparr>addDocCalls := addDocCalls st @
                [embeddingDoc e (map (averagedPoint (buffer @ [landmarks])) [0..<length landmarks])]\<rparr>"
  using assms by (simp add: saveEmbedding_guided_def averageLandmarks_snoc)

lemma saveEmbedding_guided_phase:
  "holdFramesRef st \<noteq> [] \<Longrightarrow>
   phaseRef (saveEmbedding_guided e st) = phaseRef st \<and>
   progress (saveEmbedding_guided e st) = progress st \<and>
   holdFramesRef (saveEmbedding_guided e st) = holdFramesRef st \<and>
   phaseStartRef (saveEmbedding_guided e st) = phaseStartRef st"
  by (simp add: saveEmbedding_guided_def split: sum.split)

lemma guided_action:
  assumes "isHandInBox landmarks (canvasWidth e) (canvasHeight e)" and "phaseRef st = Action"
  shows "detectLoop_guided e (Detected (landmarks # others)) st =
        (if dle ACTION_TIME (dsub (perfNow e) (phaseStartRef st))
         then st\<lparr>progress := Finite 0, status := HoldSteadyFor5, phaseRef := Hold,
                 phaseStartRef := perfNow e, holdFramesRef := []\<rparr>
         else st\<lparr>progress := dmin (ddiv (dsub (perfNow e) (phaseStartRef st)) ACTION_TIME) (Finite 1),
                 status := MoveYourHand
                   (dfloor (dmin (dmul (ddiv (dsub (perfNow e) (phaseStartRef st)) ACTION_TIME)
                      (Finite 100)) (Finite 100)))\<rparr>)"
  using assms by (simp add: detectLoop_guided_def handleHand_def Let_def)

lemma guided_hold_early:
  assumes "isHandInBox landmarks (canvasWidth e) (canvasHeight e)" and "phaseRef st = Hold"
    and "\<not> dle HOLD_TIME (dsub (perfNow e) (phaseStartRef st))"
  shows "detectLoop_guided e (Detected (landmarks # others)) st =
        st\<lparr>holdFramesRef := holdFramesRef st @ [landmarks],
           progress := dmin (ddiv (dsub (perfNow e) (phaseStartRef st)) HOLD_TIME) (Finite 1),
           status := HoldSteady
             (dfloor (dmin (dmul (ddiv (dsub (perfNow e) (phaseStartRef st)) HOLD_TIME)
                (Finite 100)) (Finite 100)))\<rparr>"
  using assms by (simp add: detectLoop_guided_def handleHand_def Let_def)

lemma guided_hold_done:
  assumes "isHandInBox landmarks (canvasWidth e) (canvasHeight e)" and "phaseRef st = Hold"
    and "dle HOLD_TIME (dsub (perfNow e) (phaseStartRef st))"
  shows "detectLoop_guided e (Detected (landmarks # others)) st =
        saveEmbedding_guided e
          (st\<lparr>holdFramesRef := holdFramesRef st @ [landmarks],
              progress := Finite 1, status := SavingEmbedding, phaseRef := Done\<rparr>)"
  using assms by (simp add: detectLoop_guided_def handleHand_def Let_def)

lemma round64_clock_readings:
  "round64 (7 / 10) = Finite (3152519739159347 / 2 ^ 52)"
  "round64 (40007 / 10) = Finite (4398816169243443 / 2 ^ 40)"
  "round64 (50007 / 10) = Finite (5498327797019443 / 2 ^ 40)"
  by (simp_all add: round64_eval)

text \<open>
  Claim C1, as stated, on the code's numbers.  With the phase clock at the reading
  \<open>0.7\<close> and the clock at the reading \<open>4000.7\<close>, less than 4000 have elapsed between the
  two readings, yet the code's difference rounds to 4000 and the phase becomes \<open>Hold\<close>.
  Likewise between the readings \<open>0.7\<close> and \<open>5000.7\<close> less than 5000 have elapsed, and
  \<open>Hold\<close> becomes \<open>Done\<close>.
\<close>

theorem guided_phase_timing_counterexample:
  "dval (round64 (40007 / 10)) - dval (round64 (7 / 10)) < 4000 \<and>
   phaseRef (detectLoop_guided ((envAt 0)\<lparr>perfNow := round64 (40007 / 10)\<rparr>) (Detected [closedHand])
      (initialGuided\<lparr>phaseStartRef := round64 (7 / 10)\<rparr>)) = Hold \<and>
   dval (round64 (50007 / 10)) - dval (round64 (7 / 10)) < 5000 \<and>
   phaseRef (detectLoop_guided ((envAt 0)\<lparr>perfNow := round64 (50007 / 10)\<rparr>) (Detected [closedHand])
      (initialGuided\<lparr>phaseRef := Hold, phaseStartRef := round64 (7 / 10)\<rparr>)) = Done"
proof -
  have box: "isHandInBox closedHand (canvasWidth ((envAt 0)\<lparr>perfNow := t\<rparr>))
      (canvasHeight ((envAt 0)\<lparr>perfNow := t\<rparr>))" for t
    using closedHand_inBox [of 0] by simp
  have a: "dsub (round64 (40007 / 10)) (round64 (7 / 10)) = Finite 4000"
    by (simp add: round64_eval)
  have h: "dsub (round64 (50007 / 10)) (round64 (7 / 10)) = Finite 5000"
    by (simp add: round64_eval)
  have "phaseRef (detectLoop_guided ((envAt 0)\<lparr>perfNow := round64 (40007 / 10)\<rparr>) (Detected [closedHand])
      (initialGuided\<lparr>phaseStartRef := round64 (7 / 10)\<rparr>)) = Hold"
    by (subst guided_action [OF box]) (simp_all add: initialGuided_def a ACTION_TIME_def)
  moreover have "phaseRef (detectLoop_guided ((envAt 0)\<lparr>perfNow := round64 (50007 / 10)\<rparr>)
      (Detected [closedHand]) (initialGuided\<lparr>phaseRef := Hold, phaseStartRef := round64 (7 / 10)\<rparr>)) = Done"
    by (subst guided_hold_done [OF box])
      (simp_all add: initialGuided_def h HOLD_TIME_def saveEmbedding_guided_phase)
  moreover have "dval (round64 (40007 / 10)) - dval (round64 (7 / 10)) < 4000"
    "dval (round64 (50007 / 10)) - dval (round64 (7 / 10)) < 5000"
    by (simp_all add: round64_clock_readings)
  ultimately show ?thesis
    by blast
qed

text \<open>
  Claim C1, amended.  In a run of the guided loop with a detected hand inside the guide
  box, let \<open>elapsed\<close> be the code's \<^verbatim>\<open>now - phaseStartRef.current\<close>: the difference of the
  two readings rounded to the nearest binary64 number.  From \<open>Action\<close> the phase becomes
  \<open>Hold\<close> exactly when \<open>elapsed\<close> is at least 4000, and then the phase clock is \<open>now\<close>, the
  buffer is empty and the progress is 0; otherwise the phase, the phase clock and the
  buffer stay.  From \<open>Hold\<close> the phase becomes \<open>Done\<close> exactly when \<open>elapsed\<close> is at least
  5000, and then the progress is 1 and, the buffered frames having the length of the
  current one, the binary64 average of the buffer with the current frame appended is
  handed to the store; otherwise the phase and the phase clock stay and the frame is
  appended to the buffer.  Whenever the exact difference of two finite readings is at
  least 4000 (5000), so is \<open>elapsed\<close>, and the transition happens.
\<close>

theorem guided_phase_timing:
  assumes "isHandInBox landmarks (canvasWidth e) (canvasHeight e)"
  shows
    "(let st' = detectLoop_guided e (Detected (landmarks # others)) st;
          elapsed = dsub (perfNow e) (phaseStartRef st)
      in (phaseRef st = Action \<longrightarrow>
            (phaseRef st' = Hold \<longleftrightarrow> dle (Finite 4000) elapsed) \<and>
            (\<not> dle (Finite 4000) elapsed \<longrightarrow>
               phaseRef st' = Action \<and> phaseStartRef st' = phaseStartRef st \<and>
               holdFramesRef st' = holdFramesRef st) \<and>
            (dle (Finite 4000) elapsed \<longrightarrow>
               phaseStartRef st' = perfNow e \<and> holdFramesRef st' = [] \<and> progress st' = Finite 0) \<and>
            (perfNow e = Finite now \<and> phaseStartRef st = Finite start \<and> 4000 \<le> now - start \<longrightarrow>
               phaseRef st' = Hold)) \<and>
         (phaseRef st = Hold \<longrightarrow>
            (phaseRef st' = Done \<longleftrightarrow> dle (Finite 5000) elapsed) \<and>
            (\<not> dle (Finite 5000) elapsed \<longrightarrow>
               phaseRef st' = Hold \<and> phaseStartRef st' = phaseStartRef st \<and>
               holdFramesRef st' = holdFramesRef st @ [landmarks]) \<and>
            (dle (Finite 5000) elapsed \<longrightarrow>
               progress st' = Finite 1 \<and>
               ((\<forall>frame \<in> set (holdFramesRef st). length frame = length landmarks) \<longrightarrow>
                  (\<exists>averaged.
                     averageLandmarks (holdFramesRef st @ [landmarks]) = Inr averaged \<and>
                     addDocCalls st' = addDocCalls st @ [embeddingDoc e averaged]))) \<and>
            (perfNow e = Finite now \<and> phaseStartRef st = Finite start \<and> 5000 \<le> now - start \<longrightarrow>
               phaseRef st' = Done)))"
proof -
  let ?st' = "detectLoop_guided e (Detected (landmarks # others)) st"
  let ?elapsed = "dsub (perfNow e) (phaseStartRef st)"
  note action = guided_action [OF assms, of st others]
  note hold_early = guided_hold_early [OF assms, of st others]
  note hold_done = guided_hold_done [OF assms, of st others]
  have save: "(\<forall>frame \<in> set (holdFramesRef st). length frame = length landmarks) \<Longrightarrow>
      saveEmbedding_guided e
          (st\<lparr>holdFramesRef := holdFramesRef st @ [landmarks],
              progress := Finite 1, status := SavingEmbedding, phaseRef := Done\<rparr>) =
      (st\<lparr>holdFramesRef := holdFramesRef st @ [landmarks],
              progress := Finite 1, status := SavingEmbedding, phaseRef := Done\<rparr>)
        \<lparr>addDocCalls := addDocCalls st @
           [embeddingDoc e (map (averagedPoint (holdFramesRef st @ [landmarks])) [0..<length landmarks])]\<rparr>"
    by (subst saveEmbedding_guided_nonempty [where buffer = "holdFramesRef st" and landmarks = landmarks])
      simp_all
  have a1: "phaseRef st = Action \<Longrightarrow> (phaseRef ?st' = Hold) = dle (Finite 4000) ?elapsed"
    by (simp add: action ACTION_TIME_def)
  have a2: "phaseRef st = Action \<Longrightarrow> \<not> dle (Finite 4000) ?elapsed \<Longrightarrow>
      phaseRef ?st' = Action \<and> phaseStartRef ?st' = phaseStartRef st \<and>
      holdFramesRef ?st' = holdFramesRef st"
    by (simp add: action ACTION_TIME_def)
  have a3: "phaseRef st = Action \<Longrightarrow> dle (Finite 4000) ?elapsed \<Longrightarrow>
      phaseStartRef ?st' = perfNow e \<and> holdFramesRef ?st' = [] \<and> progress ?st' = Finite 0"
    by (simp add: action ACTION_TIME_def)
  have a4: "phaseRef st = Action \<Longrightarrow>
      perfNow e = Finite now \<and> phaseStartRef st = Finite start \<and> 4000 \<le> now - start \<Longrightarrow>
      phaseRef ?st' = Hold"
    by (simp add: a1 round64_ge_numeral)
  have h1: "phaseRef st = Hold \<Longrightarrow> (phaseRef ?st' = Done) = dle (Finite 5000) ?elapsed"
  proof (cases "dle (Finite 5000) ?elapsed")
    case True
    assume "phaseRef st = Hold"
    then show ?thesis
      using True by (simp add: hold_done saveEmbedding_guided_phase HOLD_TIME_def)
  next
    case False
    assume "phaseRef st = Hold"
    then show ?thesis
      using False by (simp add: hold_early HOLD_TIME_def)
  qed
  have h2: "phaseRef st = Hold \<Longrightarrow> \<not> dle (Finite 5000) ?elapsed \<Longrightarrow>
      phaseRef ?st' = Hold \<and> phaseStartRef ?st' = phaseStartRef st \<and>
      holdFramesRef ?st' = holdFramesRef st @ [landmarks]"
    by (simp add: hold_early HOLD_TIME_def)
  have h3: "phaseRef st = Hold \<Longrightarrow> dle (Finite 5000) ?elapsed \<Longrightarrow> progress ?st' = Finite 1"
    by (simp add: hold_done saveEmbedding_guided_phase HOLD_TIME_def)
  have h4: "phaseRef st = Hold \<Longrightarrow> dle (Finite 5000) ?elapsed \<Longrightarrow>
      (\<forall>frame \<in> set (holdFramesRef st). length frame = length landmarks) \<Longrightarrow>
      \<exists>averaged. averageLandmarks (holdFramesRef st @ [landmarks]) = Inr averaged \<and>
        addDocCalls ?st' = addDocCalls st @ [embeddingDoc e averaged]"
    by (simp add: hold_done save averageLandmarks_snoc HOLD_TIME_def)
  have h5: "phaseRef st = Hold \<Longrightarrow>
      perfNow e = Finite now \<and> phaseStartRef st = Finite start \<and> 5000 \<le> now - start \<Longrightarrow>
      phaseRef ?st' = Done"
    by (simp add: h1 round64_ge_numeral)
  show ?thesis
    unfolding Let_def using a1 a2 a3 a4 h1 h2 h3 h4 h5 by blast
qed

theorem guided_phase_timing_witness:
  "phaseRef (detectLoop_guided (envAt 3999) (Detected [closedHand]) initialGuided) = Action \<and>
   phaseRef (detectLoop_guided (envAt 4000) (Detected [closedHand]) initialGuided) = Hold \<and>
   phaseStartRef (detectLoop_guided (envAt 4000) (Detected [closedHand]) initialGuided) = Finite 4000 \<and>
   progress (detectLoop_guided (envAt 4000) (Detected [closedHand]) initialGuided) = Finite 0 \<and>
   phaseRef (detectLoop_guided (envAt 8999) (Detected [closedHand])
      (initialGuided\<lparr>phaseRef := Hold, phaseStartRef := Finite 4000\<rparr>)) = Hold \<and>
   phaseRef (detectLoop_guided (envAt 9000) (Detected [closedHand])
      (initialGuided\<lparr>phaseRef := Hold, phaseStartRef := Finite 4000\<rparr>)) = Done \<and>
   progress (detectLoop_guided (envAt 9000) (Detected [closedHand])
      (initialGuided\<lparr>phaseRef := Hold, phaseStartRef := Finite 4000\<rparr>)) = Finite 1 \<and>
   addDocCalls (detectLoop_guided (envAt 9000) (Detected [closedHand])
      (initialGuided\<lparr>phaseRef := Hold, phaseStartRef := Finite 4000\<rparr>)) =
     [embeddingDoc (envAt 9000) closedHand]"
  using guided_phase_timing [OF closedHand_inBox, of 3999 "[]" initialGuided 3999 0]
    guided_phase_timing [OF closedHand_inBox, of 4000 "[]" initialGuided 4000 0]
    guided_phase_timing [OF closedHand_inBox, of 8999 "[]"
      "initialGuided\<lparr>phaseRef := Hold, phaseStartRef := Finite 4000\<rparr>" 8999 4000]
    guided_phase_timing [OF closedHand_inBox, of 9000 "[]"
      "initialGuided\<lparr>phaseRef := Hold, phaseStartRef := Finite 4000\<rparr>" 9000 4000]
  by (simp add: Let_def initialGuided_def envAt_def averageLandmarks_single)

section \<open>Properties of the game screen\<close>

lemma dsub_nonneg: "dle a b \<Longrightarrow> dsub b a = NaN \<or> dle (Finite 0) (dsub b a)"
  by (cases a; cases b) (simp_all add: round64_nonneg)

lemma ddiv_nonneg:
  "x = NaN \<or> dle (Finite 0) x \<Longrightarrow> 0 < c \<Longrightarrow>
   ddiv x (Finite c) = NaN \<or> dle (Finite 0) (ddiv x (Finite c))"
  by (cases x) (simp_all add: round64_nonneg)

lemma clamp_nonneg:
  "x = NaN \<or> dle (Finite 0) x \<Longrightarrow> clamp x (Finite 0) (Finite 1) = dmin x (Finite 1)"
  by (cases x) (auto simp: clamp_def dmin_def dmax_def)

lemma clamp_progress:
  assumes "dle start now"
  shows "clamp (ddiv (dsub now start) (Finite 5000)) (Finite 0) (Finite 1) =
           dmin (ddiv (dsub now start) (Finite 5000)) (Finite 1)"
  by (intro clamp_nonneg ddiv_nonneg dsub_nonneg assms) simp

lemma gameTimeLeft_zero:
  assumes "dle (Finite 60000) x"
  shows "dmax (Finite 0) (dceil (ddiv (dsub (Finite 60000) x) (Finite 1000))) = Finite 0"
proof -
  have 1: "dle (dsub (Finite 60000) x) (Finite 0)"
    using assms by (cases x) (simp_all add: round64_nonpos)
  have 2: "dle (ddiv y (Finite 1000)) (Finite 0)" if "dle y (Finite 0)" for y
    using that by (cases y) (simp_all add: round64_nonpos divide_le_0_iff)
  have 3: "dle (dceil y) (Finite 0)" if "dle y (Finite 0)" for y
    using that by (cases y) (simp_all add: round64_nonpos ceiling_le_iff)
  have 4: "dmax (Finite 0) y = Finite 0" if "dle y (Finite 0)" for y
    using that by (cases y) (auto simp: dmax_def)
  show ?thesis
    by (intro 4 3 2 1)
qed

lemma saveEmbedding_game_nonempty:
  assumes "holdFramesRef st = buffer @ [landmarks]"
    and "\<forall>frame \<in> set buffer. length frame = length landmarks"
  shows "saveEmbedding_game e st =
           st\<lparr>addDocCalls := addDocCalls st @
                [embeddingDoc e (map (averagedPoint (buffer @ [landmarks])) [0..<length landmarks])]\<rparr>"
  using assms by (simp add: saveEmbedding_game_def averageLandmarks_snoc)

lemma saveEmbedding_game_frame:
  "score (saveEmbedding_game e st) = score st \<and>
   target (saveEmbedding_game e st) = target st \<and>
   gameStartRef (saveEmbedding_game e st) = gameStartRef st"
  by (simp add: saveEmbedding_game_def split: sum.split)

lemma postHit_closed:
  "phaseRef st = PostHit \<Longrightarrow> \<not> isPalmOpen (Some landmarks) \<Longrightarrow>
   detectLoop_game isMobile e (Detected (landmarks # others)) st =
     st\<lparr>phaseStartRef := perfNow e, holdFramesRef := [], progress := Finite 0, status := TimerReset\<rparr>"
  by (simp add: detectLoop_game_def updatePostHitPhase_def)

lemma postHit_open_early:
  "phaseRef st = PostHit \<Longrightarrow> isPalmOpen (Some landmarks) \<Longrightarrow>
   \<not> dle ACTION_HOLD_TIME (dsub (perfNow e) (phaseStartRef st)) \<Longrightarrow>
   detectLoop_game isMobile e (Detected (landmarks # others)) st =
     st\<lparr>holdFramesRef := holdFramesRef st @ [landmarks],
        progress := dmin (ddiv (dsub (perfNow e) (phaseStartRef st)) ACTION_HOLD_TIME) (Finite 1)\<rparr>"
  by (simp add: detectLoop_game_def updatePostHitPhase_def Let_def)

lemma postHit_open_done:
  "phaseRef st = PostHit \<Longrightarrow> isPalmOpen (Some landmarks) \<Longrightarrow>
   dle ACTION_HOLD_TIME (dsub (perfNow e) (phaseStartRef st)) \<Longrightarrow>
   detectLoop_game isMobile e (Detected (landmarks # others)) st =
     (saveEmbedding_game e
        (st\<lparr>holdFramesRef := holdFramesRef st @ [landmarks],
            progress := dmin (ddiv (dsub (perfNow e) (phaseStartRef st)) ACTION_HOLD_TIME) (Finite 1)\<rparr>))
       \<lparr>phaseRef := Game, phaseStartRef := perfNow e, progress := Finite 0, status := BackToGame,
        holdFramesRef := []\<rparr>"
  by (simp add: detectLoop_game_def updatePostHitPhase_def Let_def)

lemma postHit_save:
  assumes "phaseRef st = PostHit" "isPalmOpen (Some landmarks)"
    and "dle ACTION_HOLD_TIME (dsub (perfNow e) (phaseStartRef st))"
    and "\<forall>frame \<in> set (holdFramesRef st). length frame = length landmarks"
  shows "addDocCalls (detectLoop_game isMobile e (Detected (landmarks # others)) st) =
     addDocCalls st @
       [embeddingDoc e (map (averagedPoint (holdFramesRef st @ [landmarks])) [0..<length landmarks])]"
  using assms(4)
  by (simp add: postHit_open_done [OF assms(1-3)]
      saveEmbedding_game_nonempty [where buffer = "holdFramesRef st" and landmarks = landmarks])

text \<open>
  Claim C3, as stated, on the code's numbers.  In phase \<open>PostHit\<close> with the phase clock at
  the reading \<open>0.7\<close>, an open palm at the reading \<open>5000.7\<close>: less than 5000 have elapsed
  between the two readings, so \<open>elapsed / 5000\<close> is below 1 and above 0; yet the code's
  difference rounds to 5000, the hold completes, and the progress is 0, the buffer empty
  and the phase \<open>Game\<close>.
\<close>

theorem postHit_behaviour_counterexample:
  "isPalmOpen (Some openHand) \<and>
   0 < (dval (round64 (50007 / 10)) - dval (round64 (7 / 10))) / 5000 \<and>
   (dval (round64 (50007 / 10)) - dval (round64 (7 / 10))) / 5000 < 1 \<and>
   progress (detectLoop_game False ((envAt 0)\<lparr>perfNow := round64 (50007 / 10)\<rparr>) (Detected [openHand])
      (initialGame\<lparr>phaseRef := PostHit, phaseStartRef := round64 (7 / 10)\<rparr>)) = Finite 0 \<and>
   holdFramesRef (detectLoop_game False ((envAt 0)\<lparr>perfNow := round64 (50007 / 10)\<rparr>) (Detected [openHand])
      (initialGame\<lparr>phaseRef := PostHit, phaseStartRef := round64 (7 / 10)\<rparr>)) = [] \<and>
   phaseRef (detectLoop_game False ((envAt 0)\<lparr>perfNow := round64 (50007 / 10)\<rparr>) (Detected [openHand])
      (initialGame\<lparr>phaseRef := PostHit, phaseStartRef := round64 (7 / 10)\<rparr>)) = Game"
proof -
  have h: "dsub (round64 (50007 / 10)) (round64 (7 / 10)) = Finite 5000"
    by (simp add: round64_eval)
  have d: "detectLoop_game False ((envAt 0)\<lparr>perfNow := round64 (50007 / 10)\<rparr>) (Detected [openHand])
      (initialGame\<lparr>phaseRef := PostHit, phaseStartRef := round64 (7 / 10)\<rparr>) =
      (saveEmbedding_game ((envAt 0)\<lparr>perfNow := round64 (50007 / 10)\<rparr>)
        (initialGame\<lparr>phaseRef := PostHit, phaseStartRef := round64 (7 / 10),
           holdFramesRef := [openHand],
           progress := dmin (ddiv (Finite 5000) ACTION_HOLD_TIME) (Finite 1)\<rparr>))
       \<lparr>phaseRef := Game, phaseStartRef := round64 (50007 / 10), progress := Finite 0,
        status := BackToGame, holdFramesRef := []\<rparr>"
    by (subst postHit_open_done) (simp_all add: initialGame_def openHand_open h ACTION_HOLD_TIME_def)
  have "0 < (dval (round64 (50007 / 10)) - dval (round64 (7 / 10))) / 5000"
    "(dval (round64 (50007 / 10)) - dval (round64 (7 / 10))) / 5000 < 1"
    by (simp_all add: round64_clock_readings)
  then show ?thesis
    unfolding d by (simp add: openHand_open)
qed

text \<open>
  Claim C3, amended.  In a run of the game's loop in phase \<open>PostHit\<close> with a detected hand,
  the phase clock not after the clock, let \<open>elapsed\<close> be the code's
  \<^verbatim>\<open>now - phaseStartRef.current\<close>: the difference of the two readings rounded to the
  nearest binary64 number.  If \<^verbatim>\<open>isPalmOpen\<close> is false, the phase clock is reset to now,
  the buffer is emptied, the progress is 0 and the phase stays \<open>PostHit\<close>.  If it is true
  and \<open>elapsed\<close> is not at least 5000, the frame is appended to the buffer and the
  progress is \<open>clamp (elapsed / 5000) 0 1\<close>, the quotient rounded.  If it is true and
  \<open>elapsed\<close> is at least 5000, the binary64 average of the buffer with the frame appended
  is handed to the store (the buffered frames having the length of the current one), and
  the phase is \<open>Game\<close> with the phase clock at now, progress 0 and an empty buffer, score
  and target unchanged.  Whenever the exact difference of two finite readings is at
  least 5000, so is \<open>elapsed\<close>.
\<close>

theorem postHit_behaviour:
  assumes "phaseRef st = PostHit" and "dle (phaseStartRef st) (perfNow e)"
  shows
    "(let st' = detectLoop_game isMobile e (Detected (landmarks # others)) st;
          elapsed = dsub (perfNow e) (phaseStartRef st)
      in (\<not> isPalmOpen (Some landmarks) \<longrightarrow>
            st' = st\<lparr>phaseStartRef := perfNow e, holdFramesRef := [], progress := Finite 0,
                     status := TimerReset\<rparr> \<and>
            phaseRef st' = PostHit) \<and>
         (isPalmOpen (Some landmarks) \<and> \<not> dle (Finite 5000) elapsed \<longrightarrow>
            st' = st\<lparr>holdFramesRef := holdFramesRef st @ [landmarks],
                     progress := clamp (ddiv elapsed (Finite 5000)) (Finite 0) (Finite 1)\<rparr>) \<and>
         (isPalmOpen (Some landmarks) \<and> dle (Finite 5000) elapsed \<longrightarrow>
            phaseRef st' = Game \<and> phaseStartRef st' = perfNow e \<and> progress st' = Finite 0 \<and>
            holdFramesRef st' = [] \<and> score st' = score st \<and> target st' = target st \<and>
            ((\<forall>frame \<in> set (holdFramesRef st). length frame = length landmarks) \<longrightarrow>
               (\<exists>averaged.
                  averageLandmarks (holdFramesRef st @ [landmarks]) = Inr averaged \<and>
                  addDocCalls st' = addDocCalls st @ [embeddingDoc e averaged]))) \<and>
         (perfNow e = Finite now \<and> phaseStartRef st = Finite start \<and> 5000 \<le> now - start \<longrightarrow>
            dle (Finite 5000) elapsed))"
proof -
  let ?st' = "detectLoop_game isMobile e (Detected (landmarks # others)) st"
  let ?elapsed = "dsub (perfNow e) (phaseStartRef st)"
  note cl = clamp_progress [OF assms(2)]
  have c1: "\<not> isPalmOpen (Some landmarks) \<Longrightarrow>
      ?st' = st\<lparr>phaseStartRef := perfNow e, holdFramesRef := [], progress := Finite 0,
                status := TimerReset\<rparr> \<and> phaseRef ?st' = PostHit"
    using assms(1) by (simp add: postHit_closed)
  have c2: "isPalmOpen (Some landmarks) \<and> \<not> dle (Finite 5000) ?elapsed \<Longrightarrow>
      ?st' = st\<lparr>holdFramesRef := holdFramesRef st @ [landmarks],
                progress := clamp (ddiv ?elapsed (Finite 5000)) (Finite 0) (Finite 1)\<rparr>"
    using assms(1) by (simp add: postHit_open_early cl ACTION_HOLD_TIME_def)
  have c3: "isPalmOpen (Some landmarks) \<and> dle (Finite 5000) ?elapsed \<Longrightarrow>
      phaseRef ?st' = Game \<and> phaseStartRef ?st' = perfNow e \<and> progress ?st' = Finite 0 \<and>
      holdFramesRef ?st' = [] \<and> score ?st' = score st \<and> target ?st' = target st"
    using assms(1) by (simp add: postHit_open_done ACTION_HOLD_TIME_def saveEmbedding_game_frame)
  have c4: "isPalmOpen (Some landmarks) \<and> dle (Finite 5000) ?elapsed \<Longrightarrow>
      (\<forall>frame \<in> set (holdFramesRef st). length frame = length landmarks) \<Longrightarrow>
      \<exists>averaged. averageLandmarks (holdFramesRef st @ [landmarks]) = Inr averaged \<and>
        addDocCalls ?st' = addDocCalls st @ [embeddingDoc e averaged]"
    using assms(1) by (simp add: postHit_save averageLandmarks_snoc ACTION_HOLD_TIME_def)
  have c5: "perfNow e = Finite now \<and> phaseStartRef st = Finite start \<and> 5000 \<le> now - start \<Longrightarrow>
      dle (Finite 5000) ?elapsed"
    by (simp add: round64_ge_numeral)
  show ?thesis
    unfolding Let_def using c1 c2 c3 c4 c5 by blast
qed

theorem postHit_behaviour_witness:
  "detectLoop_game False (envAt 16000) (Detected [closedHand])
       (initialGame\<lparr>phaseRef := PostHit, phaseStartRef := Finite 15000, holdFramesRef := [openHand]\<rparr>) =
     initialGame\<lparr>phaseRef := PostHit, phaseStartRef := Finite 16000, holdFramesRef := [],
                  progress := Finite 0, status := TimerReset\<rparr> \<and>
   detectLoop_game False (envAt 17500) (Detected [openHand])
       (initialGame\<lparr>phaseRef := PostHit, phaseStartRef := Finite 15000\<rparr>) =
     initialGame\<lparr>phaseRef := PostHit, phaseStartRef := Finite 15000, holdFramesRef := [openHand],
                  progress := Finite (1 / 2)\<rparr> \<and>
   phaseRef (detectLoop_game False (envAt 20000) (Detected [openHand])
       (initialGame\<lparr>phaseRef := PostHit, phaseStartRef := Finite 15000, holdFramesRef := [openHand]\<rparr>)) = Game \<and>
   holdFramesRef (detectLoop_game False (envAt 20000) (Detected [openHand])
       (initialGame\<lparr>phaseRef := PostHit, phaseStartRef := Finite 15000, holdFramesRef := [openHand]\<rparr>)) = [] \<and>
   addDocCalls (detectLoop_game False (envAt 20000) (Detected [openHand])
       (initialGame\<lparr>phaseRef := PostHit, phaseStartRef := Finite 15000, holdFramesRef := [openHand]\<rparr>)) =
     [embeddingDoc (envAt 20000) openHand]"
proof -
  have half: "clamp (round64 (1 / 2)) (Finite 0) (Finite 1) = Finite (1 / 2)"
    by (simp add: clamp_def dmin_def dmax_def round64_eval)
  show ?thesis
    using postHit_behaviour [of "initialGame\<lparr>phaseRef := PostHit, phaseStartRef := Finite 15000, holdFramesRef := [openHand]\<rparr>"
        "envAt 16000" False closedHand "[]" 16000 15000]
      postHit_behaviour [of "initialGame\<lparr>phaseRef := PostHit, phaseStartRef := Finite 15000\<rparr>"
        "envAt 17500" False openHand "[]" 17500 15000]
      postHit_behaviour [of "initialGame\<lparr>phaseRef := PostHit, phaseStartRef := Finite 15000, holdFramesRef := [openHand]\<rparr>"
        "envAt 20000" False openHand "[]" 20000 15000]
    by (simp add: Let_def initialGame_def envAt_def openHand_open closedHand_closed half
        averageLandmarks_pair)
qed

lemma game_over:
  "phaseRef st = Game \<Longrightarrow> dle GAME_TIME (dsub (perfNow e) (gameStartRef st)) \<Longrightarrow>
   detectLoop_game isMobile e (Detected (landmarks # others)) st =
     st\<lparr>gameTimeLeft := Finite 0, phaseRef := Finished, status := GameOver (score st)\<rparr>"
  by (simp add: detectLoop_game_def updateGamePhase_def Let_def GAME_TIME_def gameTimeLeft_zero)

lemma game_running:
  "phaseRef st = Game \<Longrightarrow> \<not> dle GAME_TIME (dsub (perfNow e) (gameStartRef st)) \<Longrightarrow>
   detectLoop_game isMobile e (Detected ((wrist # rest) # others)) st =
     (let st1 = st\<lparr>gameTimeLeft :=
                     dmax (Finite 0)
                       (dceil (ddiv (dsub GAME_TIME (dsub (perfNow e) (gameStartRef st))) (Finite 1000)))\<rparr>;
          dx = dsub (px wrist) (fst (target st));
          dy = dsub (py wrist) (snd (target st))
      in if dless (dsqrt (dadd (dmul dx dx) (dmul dy dy))) (TARGET_RADIUS isMobile)
         then st1\<lparr>score := dadd (score st) (Finite 1), target := (random1 e, random2 e),
                  phaseRef := PostHit, phaseStartRef := perfNow2 e,
                  holdFramesRef := [], progress := Finite 0, status := ShowOpenPalm\<rparr>
         else st1)"
  by (simp add: detectLoop_game_def updateGamePhase_def Let_def)

lemma game_not_over:
  "phaseRef st = Game \<Longrightarrow> \<not> dle GAME_TIME (dsub (perfNow e) (gameStartRef st)) \<Longrightarrow>
   phaseRef (detectLoop_game isMobile e (Detected (landmarks # others)) st) \<noteq> Finished"
  by (simp add: detectLoop_game_def updateGamePhase_def Let_def split: list.split)

lemma finished_step:
  "phaseRef st = Finished \<Longrightarrow>
   phaseRef (gameStep isMobile st ev) = Finished \<and>
   phaseStartRef (gameStep isMobile st ev) = phaseStartRef st \<and>
   gameStartRef (gameStep isMobile st ev) = gameStartRef st \<and>
   holdFramesRef (gameStep isMobile st ev) = holdFramesRef st \<and>
   score (gameStep isMobile st ev) = score st \<and>
   target (gameStep isMobile st ev) = target st \<and>
   progress (gameStep isMobile st ev) = progress st \<and>
   status (gameStep isMobile st ev) = status st"
  by (cases ev)
    (auto simp: detectLoop_game_def saveEmbedding_game_resume_def
      split: tick.split list.split outcome.split)

lemma finished_run:
  "phaseRef st = Finished \<Longrightarrow>
   phaseRef (gameRun isMobile events st) = Finished \<and>
   phaseStartRef (gameRun isMobile events st) = phaseStartRef st \<and>
   gameStartRef (gameRun isMobile events st) = gameStartRef st \<and>
   holdFramesRef (gameRun isMobile events st) = holdFramesRef st \<and>
   score (gameRun isMobile events st) = score st \<and>
   target (gameRun isMobile events st) = target st \<and>
   progress (gameRun isMobile events st) = progress st \<and>
   status (gameRun isMobile events st) = status st"
proof (induction events arbitrary: st)
  case Nil
  then show ?case by (simp add: gameRun_def)
next
  case (Cons ev events)
  have "gameRun isMobile (ev # events) st = gameRun isMobile events (gameStep isMobile st ev)"
    by (simp add: gameRun_def)
  then show ?case
    using Cons.IH [of "gameStep isMobile st ev"] finished_step [OF Cons.prems, of isMobile ev]
    by simp
qed

lemma closedHand_Cons:
  "closedHand = \<lparr>px = Finite (1 / 2), py = Finite (1 / 2), pz = Finite 0\<rparr> #
     replicate 20 \<lparr>px = Finite (1 / 2), py = Finite (1 / 2), pz = Finite 0\<rparr>"
  by (simp add: closedHand_def numeral_eq_Suc)

lemma radius_positive: "dless (Finite 0) (TARGET_RADIUS isMobile)"
  by (simp add: TARGET_RADIUS_def round64_eval)

text \<open>
  Claim C6, as stated, on the code.  With the game-start clock at 0 and the wrist on the
  target: at the clock reading 59999 the hit scores and the phase becomes \<open>PostHit\<close>; at
  the reading 60000 the elapsed game time does not exceed 60000, yet the phase becomes
  \<open>Finished\<close> and the hit does not score.  And with the game-start clock at the reading
  \<open>0.7\<close> and the clock at the reading \<open>60000.7\<close>, less than 60000 have elapsed, yet the
  code's difference rounds to 60000 and the phase becomes \<open>Finished\<close>.
\<close>

theorem game_over_rule_counterexample:
  "phaseRef (detectLoop_game False (envAt 59999) (Detected [closedHand])
      (initialGame\<lparr>phaseRef := Game\<rparr>)) = PostHit \<and>
   score (detectLoop_game False (envAt 59999) (Detected [closedHand])
      (initialGame\<lparr>phaseRef := Game\<rparr>)) = Finite 1 \<and>
   \<not> 60000 < dval (perfNow (envAt 60000)) - dval (gameStartRef (initialGame\<lparr>phaseRef := Game\<rparr>)) \<and>
   phaseRef (detectLoop_game False (envAt 60000) (Detected [closedHand])
      (initialGame\<lparr>phaseRef := Game\<rparr>)) = Finished \<and>
   score (detectLoop_game False (envAt 60000) (Detected [closedHand])
      (initialGame\<lparr>phaseRef := Game\<rparr>)) = Finite 0 \<and>
   dval (round64 (600007 / 10)) - dval (round64 (7 / 10)) < 60000 \<and>
   phaseRef (detectLoop_game False ((envAt 0)\<lparr>perfNow := round64 (600007 / 10)\<rparr>) (Detected [closedHand])
      (initialGame\<lparr>phaseRef := Game, gameStartRef := round64 (7 / 10)\<rparr>)) = Finished"
proof -
  have r: "round64 (600007 / 10) = Finite (4123216707793715 / 2 ^ 36)"
    by (simp add: round64_eval)
  have e: "dsub (round64 (600007 / 10)) (round64 (7 / 10)) = Finite 60000"
    by (simp add: round64_eval)
  have "detectLoop_game False (envAt 59999) (Detected [closedHand]) (initialGame\<lparr>phaseRef := Game\<rparr>) =
      initialGame\<lparr>gameTimeLeft := Finite 1, score := Finite 1, target := (Finite (1 / 4), Finite (3 / 4)),
        phaseRef := PostHit, phaseStartRef := Finite 59999, holdFramesRef := [], progress := Finite 0,
        status := ShowOpenPalm\<rparr>"
    unfolding closedHand_Cons
    by (subst game_running)
      (simp_all add: initialGame_def envAt_def GAME_TIME_def Let_def radius_positive dmax_def
        round64_eval)
  moreover have "detectLoop_game False (envAt 60000) (Detected [closedHand]) (initialGame\<lparr>phaseRef := Game\<rparr>) =
      initialGame\<lparr>gameTimeLeft := Finite 0, phaseRef := Finished, status := GameOver (Finite 0)\<rparr>"
    by (subst game_over) (simp_all add: initialGame_def envAt_def GAME_TIME_def)
  moreover have "detectLoop_game False ((envAt 0)\<lparr>perfNow := round64 (600007 / 10)\<rparr>) (Detected [closedHand])
      (initialGame\<lparr>phaseRef := Game, gameStartRef := round64 (7 / 10)\<rparr>) =
      initialGame\<lparr>gameStartRef := round64 (7 / 10), gameTimeLeft := Finite 0, phaseRef := Finished,
        status := GameOver (Finite 0)\<rparr>"
    by (subst game_over) (simp_all add: initialGame_def e GAME_TIME_def)
  moreover have "dval (round64 (600007 / 10)) - dval (round64 (7 / 10)) < 60000"
    by (simp add: r round64_clock_readings)
  ultimately show ?thesis
    by (simp add: initialGame_def envAt_def)
qed

text \<open>
  Claim C6, amended.  In a run of the game's loop in phase \<open>Game\<close> with a detected hand, let
  \<open>elapsed\<close> be the code's \<^verbatim>\<open>now - gameStartRef.current\<close>: the difference of the clock
  reading and the game-start clock, rounded to the nearest binary64 number.  The phase
  becomes \<open>Finished\<close> exactly when \<open>elapsed\<close> is at least 60000; then nothing else
  changes but the time left (0) and the status: whatever the wrist's position, the score
  is not incremented and the target stays.  Whenever the exact difference of two finite
  readings is at least 60000, so is \<open>elapsed\<close>.  When \<open>elapsed\<close> is not at least 60000,
  the hit test decides: a wrist nearer to the target than the target radius adds 1 to
  the score and the phase becomes \<open>PostHit\<close>; any other wrist leaves the phase \<open>Game\<close>,
  the score and the target.  From \<open>Finished\<close>, no run of the loop and no settling save
  changes the phase, the score or the target.
\<close>

theorem game_over_rule:
  "(phaseRef st = Game \<longrightarrow>
      (let st' = detectLoop_game isMobile e (Detected (landmarks # others)) st;
           elapsed = dsub (perfNow e) (gameStartRef st)
       in (phaseRef st' = Finished \<longleftrightarrow> dle (Finite 60000) elapsed) \<and>
          (dle (Finite 60000) elapsed \<longrightarrow>
             st' = st\<lparr>gameTimeLeft := Finite 0, phaseRef := Finished, status := GameOver (score st)\<rparr> \<and>
             score st' = score st \<and> target st' = target st) \<and>
          (perfNow e = Finite now \<and> gameStartRef st = Finite start \<and> 60000 \<le> now - start \<longrightarrow>
             dle (Finite 60000) elapsed))) \<and>
   (phaseRef st = Game \<and> \<not> dle (Finite 60000) (dsub (perfNow e) (gameStartRef st)) \<longrightarrow>
      (let st' = detectLoop_game isMobile e (Detected ((wrist # rest) # others)) st;
           dx = dsub (px wrist) (fst (target st));
           dy = dsub (py wrist) (snd (target st));
           hit = dless (dsqrt (dadd (dmul dx dx) (dmul dy dy))) (TARGET_RADIUS isMobile)
       in (hit \<longrightarrow> phaseRef st' = PostHit \<and> score st' = dadd (score st) (Finite 1)) \<and>
          (\<not> hit \<longrightarrow> phaseRef st' = Game \<and> score st' = score st \<and> target st' = target st))) \<and>
   (phaseRef st = Finished \<longrightarrow>
      phaseRef (gameRun isMobile events st) = Finished \<and>
      score (gameRun isMobile events st) = score st \<and>
      target (gameRun isMobile events st) = target st)"
proof -
  let ?st' = "detectLoop_game isMobile e (Detected (landmarks # others)) st"
  let ?elapsed = "dsub (perfNow e) (gameStartRef st)"
  have g1: "phaseRef st = Game \<Longrightarrow> (phaseRef ?st' = Finished) = dle (Finite 60000) ?elapsed"
    using game_over [of st e isMobile landmarks others] game_not_over [of st e isMobile landmarks others]
    by (cases "dle (Finite 60000) ?elapsed") (simp_all add: GAME_TIME_def)
  have g2: "phaseRef st = Game \<Longrightarrow> dle (Finite 60000) ?elapsed \<Longrightarrow>
      ?st' = st\<lparr>gameTimeLeft := Finite 0, phaseRef := Finished, status := GameOver (score st)\<rparr> \<and>
      score ?st' = score st \<and> target ?st' = target st"
    using game_over [of st e isMobile landmarks others] by (simp add: GAME_TIME_def)
  have g3: "perfNow e = Finite now \<and> gameStartRef st = Finite start \<and> 60000 \<le> now - start \<Longrightarrow>
      dle (Finite 60000) ?elapsed"
    by (simp add: round64_ge_numeral)
  have g4: "phaseRef st = Game \<and> \<not> dle (Finite 60000) ?elapsed \<Longrightarrow>
      (let st' = detectLoop_game isMobile e (Detected ((wrist # rest) # others)) st;
           dx = dsub (px wrist) (fst (target st));
           dy = dsub (py wrist) (snd (target st));
           hit = dless (dsqrt (dadd (dmul dx dx) (dmul dy dy))) (TARGET_RADIUS isMobile)
       in (hit \<longrightarrow> phaseRef st' = PostHit \<and> score st' = dadd (score st) (Finite 1)) \<and>
          (\<not> hit \<longrightarrow> phaseRef st' = Game \<and> score st' = score st \<and> target st' = target st))"
    using game_running [of st e isMobile wrist rest others] by (simp add: GAME_TIME_def Let_def)
  have g5: "phaseRef st = Finished \<Longrightarrow>
      phaseRef (gameRun isMobile events st) = Finished \<and>
      score (gameRun isMobile events st) = score st \<and>
      target (gameRun isMobile events st) = target st"
    using finished_run [of st isMobile events] by simp
  show ?thesis
    unfolding Let_def using g1 g2 g3 g4 [unfolded Let_def] g5 by blast
qed

theorem game_over_rule_witness:
  "phaseRef (detectLoop_game False (envAt 60001) (Detected [closedHand])
      (initialGame\<lparr>phaseRef := Game\<rparr>)) = Finished \<and>
   score (detectLoop_game False (envAt 60001) (Detected [closedHand])
      (initialGame\<lparr>phaseRef := Game\<rparr>)) = Finite 0 \<and>
   target (detectLoop_game False (envAt 60001) (Detected [closedHand])
      (initialGame\<lparr>phaseRef := Game\<rparr>)) = (Finite (1 / 2), Finite (1 / 2)) \<and>
   phaseRef (detectLoop_game False (envAt 15000) (Detected [closedHand])
      (initialGame\<lparr>phaseRef := Game\<rparr>)) = PostHit \<and>
   score (detectLoop_game False (envAt 15000) (Detected [closedHand])
      (initialGame\<lparr>phaseRef := Game\<rparr>)) = Finite 1 \<and>
   phaseRef (gameRun False
      [Tick (envAt 70000) (Detected [closedHand]), Tick (envAt 70016) (Detected []),
       SaveSettled Rejected, Tick (envAt 70033) DetectFailed]
      (initialGame\<lparr>phaseRef := Finished\<rparr>)) = Finished"
  using game_over_rule [of "initialGame\<lparr>phaseRef := Game\<rparr>" False "envAt 60001" closedHand "[]"
      60001 0 "\<lparr>px = Finite (1 / 2), py = Finite (1 / 2), pz = Finite 0\<rparr>" "[]" "[]"]
    game_over_rule [of "initialGame\<lparr>phaseRef := Game\<rparr>" False "envAt 15000" closedHand "[]"
      15000 0 "\<lparr>px = Finite (1 / 2), py = Finite (1 / 2), pz = Finite 0\<rparr>"
      "replicate 20 \<lparr>px = Finite (1 / 2), py = Finite (1 / 2), pz = Finite 0\<rparr>" "[]"]
    game_over_rule [of "initialGame\<lparr>phaseRef := Finished\<rparr>" False "envAt 0" closedHand "[]"
      0 0 "\<lparr>px = Finite (1 / 2), py = Finite (1 / 2), pz = Finite 0\<rparr>" "[]"
      "[Tick (envAt 70000) (Detected [closedHand]), Tick (envAt 70016) (Detected []),
        SaveSettled Rejected, Tick (envAt 70033) DetectFailed]"]
    radius_positive
  unfolding closedHand_Cons [symmetric]
  by (simp add: Let_def initialGame_def envAt_def)

lemma noHand_tick:
  "detectLoop_game isMobile e (Detected []) st =
     (if phaseRef st = Rules then st\<lparr>rulesCountdown := Finite 7\<rparr> else st)"
  by (simp add: detectLoop_game_def)

lemma noHandTicks_run:
  "phaseRef st \<noteq> Rules \<Longrightarrow> gameRun isMobile (noHandTicks gap) st = st"
  by (induction gap) (simp_all add: gameRun_def noHandTicks_def noHand_tick)

lemma gameRun_snoc:
  "gameRun isMobile (events @ [ev]) st = gameStep isMobile (gameRun isMobile events st) ev"
  by (simp add: gameRun_def)

text \<open>
  Claim C10.  A run of the game's loop with no detected hand leaves the whole state as
  it is in the phases \<open>Game\<close>, \<open>PostHit\<close> and \<open>Finished\<close>, and in \<open>Rules\<close> only sets the
  countdown to 7.  So the hold timer of \<open>PostHit\<close> keeps running: after any number of
  runs without a hand, the first run with an open palm (\<^verbatim>\<open>isPalmOpen\<close> true) whose
  \<^verbatim>\<open>now - phaseStartRef.current\<close> is at least 5000 completes the hold: the phase is
  \<open>Game\<close>, and the binary64 average of the buffer with that frame is handed to the store.
  Such is every run with an open palm at which the exact difference of the two finite
  readings is at least 5000.
\<close>

theorem hand_absent_inert:
  "(phaseRef st = Game \<or> phaseRef st = PostHit \<or> phaseRef st = Finished \<longrightarrow>
      detectLoop_game isMobile e (Detected []) st = st) \<and>
   (phaseRef st = Rules \<longrightarrow>
      detectLoop_game isMobile e (Detected []) st = st\<lparr>rulesCountdown := Finite 7\<rparr>) \<and>
   (phaseRef st = PostHit \<and> isPalmOpen (Some landmarks) \<and>
    (dle (Finite 5000) (dsub (perfNow e') (phaseStartRef st)) \<or>
     perfNow e' = Finite now \<and> phaseStartRef st = Finite start \<and> 5000 \<le> now - start) \<and>
    (\<forall>frame \<in> set (holdFramesRef st). length frame = length landmarks) \<longrightarrow>
      (let st' = gameRun isMobile (noHandTicks gap @ [Tick e' (Detected (landmarks # others))]) st
       in phaseRef st' = Game \<and>
          (\<exists>averaged.
             averageLandmarks (holdFramesRef st @ [landmarks]) = Inr averaged \<and>
             addDocCalls st' = addDocCalls st @ [embeddingDoc e' averaged])))"
proof (intro conjI impI)
  assume "phaseRef st = Game \<or> phaseRef st = PostHit \<or> phaseRef st = Finished"
  then show "detectLoop_game isMobile e (Detected []) st = st"
    by (auto simp: noHand_tick)
next
  assume "phaseRef st = Rules"
  then show "detectLoop_game isMobile e (Detected []) st = st\<lparr>rulesCountdown := Finite 7\<rparr>"
    by (simp add: noHand_tick)
next
  assume a: "phaseRef st = PostHit \<and> isPalmOpen (Some landmarks) \<and>
    (dle (Finite 5000) (dsub (perfNow e') (phaseStartRef st)) \<or>
     perfNow e' = Finite now \<and> phaseStartRef st = Finite start \<and> 5000 \<le> now - start) \<and>
    (\<forall>frame \<in> set (holdFramesRef st). length frame = length landmarks)"
  then have ph: "phaseRef st = PostHit" and op: "isPalmOpen (Some landmarks)"
    and len: "\<forall>frame \<in> set (holdFramesRef st). length frame = length landmarks"
    by simp_all
  have "dle (Finite 5000) (dsub (perfNow e') (phaseStartRef st))"
    using a by (auto simp: round64_ge_numeral)
  then have el: "dle ACTION_HOLD_TIME (dsub (perfNow e') (phaseStartRef st))"
    by (simp add: ACTION_HOLD_TIME_def)
  have run: "gameRun isMobile (noHandTicks gap @ [Tick e' (Detected (landmarks # others))]) st =
      detectLoop_game isMobile e' (Detected (landmarks # others)) st"
    using ph by (simp add: gameRun_snoc noHandTicks_run)
  show "let st' = gameRun isMobile (noHandTicks gap @ [Tick e' (Detected (landmarks # others))]) st
    in phaseRef st' = Game \<and>
       (\<exists>averaged.
          averageLandmarks (holdFramesRef st @ [landmarks]) = Inr averaged \<and>
          addDocCalls st' = addDocCalls st @ [embeddingDoc e' averaged])"
  proof -
    have "phaseRef (detectLoop_game isMobile e' (Detected (landmarks # others)) st) = Game"
      by (simp add: postHit_open_done [OF ph op el])
    moreover have "averageLandmarks (holdFramesRef st @ [landmarks]) =
        Inr (map (averagedPoint (holdFramesRef st @ [landmarks])) [0..<length landmarks])"
      using len by (rule averageLandmarks_snoc)
    ultimately show ?thesis
      unfolding Let_def run using postHit_save [OF ph op el len, of isMobile others] by simp
  qed
qed

theorem hand_absent_inert_witness:
  "detectLoop_game False (envAt 16000) (Detected [])
       (initialGame\<lparr>phaseRef := PostHit, phaseStartRef := Finite 15000, holdFramesRef := [openHand]\<rparr>) =
     initialGame\<lparr>phaseRef := PostHit, phaseStartRef := Finite 15000, holdFramesRef := [openHand]\<rparr> \<and>
   detectLoop_game False (envAt 3000) (Detected [])
       (initialGame\<lparr>phaseRef := Rules, rulesCountdown := Finite 9\<rparr>) =
     initialGame\<lparr>phaseRef := Rules, rulesCountdown := Finite 7\<rparr> \<and>
   phaseRef (gameRun False
       (noHandTicks [envAt 16000, envAt 18000, envAt 20500]
          @ [Tick (envAt 21000) (Detected [openHand])])
       (initialGame\<lparr>phaseRef := PostHit, phaseStartRef := Finite 15000, holdFramesRef := [openHand]\<rparr>)) = Game \<and>
   addDocCalls (gameRun False
       (noHandTicks [envAt 16000, envAt 18000, envAt 20500]
          @ [Tick (envAt 21000) (Detected [openHand])])
       (initialGame\<lparr>phaseRef := PostHit, phaseStartRef := Finite 15000, holdFramesRef := [openHand]\<rparr>)) =
     [embeddingDoc (envAt 21000) openHand]"
  using hand_absent_inert
      [of "initialGame\<lparr>phaseRef := PostHit, phaseStartRef := Finite 15000, holdFramesRef := [openHand]\<rparr>"
        False "envAt 16000" openHand "envAt 21000" 21000 15000 "[envAt 16000, envAt 18000, envAt 20500]" "[]"]
    hand_absent_inert
      [of "initialGame\<lparr>phaseRef := Rules, rulesCountdown := Finite 9\<rparr>"
        False "envAt 3000" openHand "envAt 21000" 21000 15000 "[]" "[]"]
  by (simp add: Let_def initialGame_def envAt_def openHand_open averageLandmarks_pair)

section \<open>Saving: the empty buffer and a failing store\<close>

text \<open>
  Claim C8, as stated, on the game screen: with an empty buffer its \<^verbatim>\<open>saveEmbedding\<close>
  returns at once; no message is set and the phase is as before.
\<close>

theorem empty_buffer_guard_counterexample:
  "holdFramesRef (initialGame\<lparr>phaseRef := PostHit\<rparr>) = [] \<and>
   status (saveEmbedding_game (envAt 20000) (initialGame\<lparr>phaseRef := PostHit\<rparr>)) \<noteq> NoHandTryAgain \<and>
   saveEmbedding_game (envAt 20000) (initialGame\<lparr>phaseRef := PostHit\<rparr>) =
     initialGame\<lparr>phaseRef := PostHit\<rparr>"
  by (simp add: saveEmbedding_game_def initialGame_def)

text \<open>
  Claim C8, amended.  With an empty buffer, the guided \<^verbatim>\<open>saveEmbedding\<close> sets the status
  "No hand detected. Try again", the phase \<open>Action\<close> and the progress 0, hands nothing
  to the store and throws nothing; the game's \<^verbatim>\<open>saveEmbedding\<close> returns with the state
  unchanged.
\<close>

theorem empty_buffer_guard:
  "(holdFramesRef g = [] \<longrightarrow>
      saveEmbedding_guided e g = g\<lparr>status := NoHandTryAgain, phaseRef := Action, progress := Finite 0\<rparr> \<and>
      addDocCalls (saveEmbedding_guided e g) = addDocCalls g \<and>
      rejections (saveEmbedding_guided e g) = rejections g) \<and>
   (holdFramesRef st = [] \<longrightarrow>
      saveEmbedding_game e st = st)"
  by (simp add: saveEmbedding_guided_def saveEmbedding_game_def)

theorem empty_buffer_guard_witness:
  "saveEmbedding_guided (envAt 9000) (initialGuided\<lparr>phaseRef := Done, progress := Finite 1\<rparr>) =
     initialGuided\<lparr>status := NoHandTryAgain\<rparr> \<and>
   saveEmbedding_game (envAt 20000) (initialGame\<lparr>phaseRef := PostHit\<rparr>) =
     initialGame\<lparr>phaseRef := PostHit\<rparr>"
  using empty_buffer_guard [of "initialGuided\<lparr>phaseRef := Done, progress := Finite 1\<rparr>" "envAt 9000"
      "initialGame\<lparr>phaseRef := PostHit\<rparr>"]
    empty_buffer_guard [of "initialGuided\<lparr>phaseRef := Done, progress := Finite 1\<rparr>" "envAt 20000"
      "initialGame\<lparr>phaseRef := PostHit\<rparr>"]
  by (simp add: initialGuided_def initialGame_def)

lemma holdComplete_eq:
  "holdComplete =
     initialGuided\<lparr>phaseRef := Done, phaseStartRef := Finite 4000, holdFramesRef := [closedHand],
       status := SavingEmbedding, progress := Finite 1,
       addDocCalls := [embeddingDoc (envAt 9000) closedHand]\<rparr>"
  unfolding holdComplete_def
  by (subst guided_hold_done [OF closedHand_inBox])
    (simp_all add: HOLD_TIME_def initialGuided_def saveEmbedding_guided_def averageLandmarks_single
      envAt_def)

text \<open>
  Claim C9 on the guided screen.  After a completed hold the document is with the store
  and the phase is \<open>Done\<close>.  When the store rejects it, the guided \<^verbatim>\<open>saveEmbedding\<close> ends
  with an exception nobody catches: it writes nothing to the console and schedules no
  timeout, so the phase stays \<open>Done\<close>; when the store accepts it, the timeout re-arms the
  phase to \<open>Action\<close> with an empty buffer and progress 0.  The game's \<^verbatim>\<open>saveEmbedding\<close>
  catches the rejection and logs it.
\<close>

theorem guided_store_failure:
  "phaseRef holdComplete = Done \<and>
   addDocCalls holdComplete = [embeddingDoc (envAt 9000) closedHand] \<and>
   saveEmbedding_guided_resume Rejected holdComplete =
     holdComplete\<lparr>rejections := [StoreError]\<rparr> \<and>
   console (saveEmbedding_guided_resume Rejected holdComplete) = [] \<and>
   timeoutFired (saveEmbedding_guided_resume Rejected holdComplete) =
     saveEmbedding_guided_resume Rejected holdComplete \<and>
   phaseRef (timeoutFired (saveEmbedding_guided_resume Rejected holdComplete)) = Done \<and>
   phaseRef (timeoutFired (saveEmbedding_guided_resume Resolved holdComplete)) = Action \<and>
   holdFramesRef (timeoutFired (saveEmbedding_guided_resume Resolved holdComplete)) = [] \<and>
   progress (timeoutFired (saveEmbedding_guided_resume Resolved holdComplete)) = Finite 0 \<and>
   console (saveEmbedding_game_resume Rejected initialGame) = [ErrorFailedToSave]"
  by (simp add: holdComplete_eq saveEmbedding_guided_resume_def timeoutFired_def
      saveEmbedding_game_resume_def initialGuided_def initialGame_def)

section \<open>Further properties of the two screens\<close>

text \<open>
  Property X1: a hit.  In a run of the game's loop in phase \<open>Game\<close> before the game time is
  up, the code computes the distance of the wrist (landmark 0) from the target as
  \<^verbatim>\<open>Math.sqrt(dx * dx + dy * dy)\<close>, every operation rounded.  If it is less than the
  target radius, 1 is added to the score, a new target is drawn from the two random
  numbers, and the phase is \<open>PostHit\<close> with the phase clock at the second clock reading,
  an empty buffer and progress 0.  Any other wrist position changes nothing but the time
  left.
\<close>

theorem game_hit:
  "phaseRef st = Game \<and> \<not> dle (Finite 60000) (dsub (perfNow e) (gameStartRef st)) \<longrightarrow>
     (let st' = detectLoop_game isMobile e (Detected ((wrist # rest) # others)) st;
          dx = dsub (px wrist) (fst (target st));
          dy = dsub (py wrist) (snd (target st));
          timeLeft = dmax (Finite 0)
            (dceil (ddiv (dsub (Finite 60000) (dsub (perfNow e) (gameStartRef st))) (Finite 1000)))
      in (dless (dsqrt (dadd (dmul dx dx) (dmul dy dy))) (TARGET_RADIUS isMobile) \<longrightarrow>
            st' = st\<lparr>gameTimeLeft := timeLeft, score := dadd (score st) (Finite 1),
                     target := (random1 e, random2 e), phaseRef := PostHit,
                     phaseStartRef := perfNow2 e, holdFramesRef := [], progress := Finite 0,
                     status := ShowOpenPalm\<rparr>) \<and>
         (\<not> dless (dsqrt (dadd (dmul dx dx) (dmul dy dy))) (TARGET_RADIUS isMobile) \<longrightarrow>
            st' = st\<lparr>gameTimeLeft := timeLeft\<rparr>))"
  using game_running [of st e isMobile wrist rest others] by (simp add: GAME_TIME_def Let_def)

theorem game_hit_witness:
  "detectLoop_game False (envAt 15000) (Detected [closedHand]) (initialGame\<lparr>phaseRef := Game\<rparr>) =
     initialGame\<lparr>gameTimeLeft := Finite 45, score := Finite 1,
       target := (Finite (1 / 4), Finite (3 / 4)), phaseRef := PostHit,
       phaseStartRef := Finite 15000, holdFramesRef := [], progress := Finite 0,
       status := ShowOpenPalm\<rparr> \<and>
   detectLoop_game False (envAt 15000) (Detected [closedHand])
      (initialGame\<lparr>phaseRef := Game, target := (Finite (1 / 8), Finite 0)\<rparr>) =
     initialGame\<lparr>phaseRef := Game, target := (Finite (1 / 8), Finite 0), gameTimeLeft := Finite 45\<rparr>"
proof -
  have s: "sqrt (25 / 64) = 5 / 8"
    by (rule real_sqrt_unique) (simp_all add: power2_eq_square)
  have far: "\<not> dless (dsqrt (dadd (dmul (dsub (Finite (1 / 2)) (Finite (1 / 8)))
                                          (dsub (Finite (1 / 2)) (Finite (1 / 8))))
                                    (dmul (dsub (Finite (1 / 2)) (Finite 0))
                                          (dsub (Finite (1 / 2)) (Finite 0)))))
                      (TARGET_RADIUS False)"
  proof -
    have "dadd (dmul (dsub (Finite (1 / 2)) (Finite (1 / 8))) (dsub (Finite (1 / 2)) (Finite (1 / 8))))
               (dmul (dsub (Finite (1 / 2)) (Finite 0)) (dsub (Finite (1 / 2)) (Finite 0))) =
          Finite (25 / 64)"
      by (simp add: round64_eval)
    then show ?thesis
      by (simp add: s TARGET_RADIUS_def round64_eval)
  qed
  have near: "dless (dsqrt (dadd (dmul (dsub (Finite (1 / 2)) (Finite (1 / 2)))
                                       (dsub (Finite (1 / 2)) (Finite (1 / 2))))
                                 (dmul (dsub (Finite (1 / 2)) (Finite (1 / 2)))
                                       (dsub (Finite (1 / 2)) (Finite (1 / 2))))))
                    (TARGET_RADIUS False)"
    using radius_positive [of False] by simp
  have t: "dmax (Finite 0) (dceil (ddiv (dsub (Finite 60000) (dsub (Finite 15000) (Finite 0))) (Finite 1000))) =
      Finite 45"
    by (simp add: dmax_def)
  have run: "\<not> dle (Finite 60000) (dsub (Finite 15000) (Finite 0))"
    by simp
  have one: "dadd (Finite 0) (Finite 1) = Finite 1"
    by simp
  show ?thesis
    using game_hit [of "initialGame\<lparr>phaseRef := Game\<rparr>" "envAt 15000" False
        "\<lparr>px = Finite (1 / 2), py = Finite (1 / 2), pz = Finite 0\<rparr>"
        "replicate 20 \<lparr>px = Finite (1 / 2), py = Finite (1 / 2), pz = Finite 0\<rparr>" "[]"]
      game_hit [of "initialGame\<lparr>phaseRef := Game, target := (Finite (1 / 8), Finite 0)\<rparr>" "envAt 15000" False
        "\<lparr>px = Finite (1 / 2), py = Finite (1 / 2), pz = Finite 0\<rparr>"
        "replicate 20 \<lparr>px = Finite (1 / 2), py = Finite (1 / 2), pz = Finite 0\<rparr>" "[]"]
      near far t run
    unfolding closedHand_Cons [symmetric] Let_def
    by (simp only: initialGame_def envAt_def gameState.simps gameState.update_convs
        core.simps core.update_convs env.simps fst_conv snd_conv landmark.simps simp_thms one)
qed

text \<open>
  Property X2: hand lost.  A run of the guided loop with no detected hand empties the
  buffer, sets the phase \<open>Action\<close>, resets the phase clock and the progress, whatever the
  phase was.
\<close>

theorem guided_hand_lost:
  "detectLoop_guided e (Detected []) st =
     st\<lparr>holdFramesRef := [], phaseRef := Action, phaseStartRef := perfNow e, progress := Finite 0,
        status := ShowHandInsideBox\<rparr>"
  by (simp add: detectLoop_guided_def)

text \<open>
  Property X3: out of the region.  A run of the guided loop with a hand for which
  \<^verbatim>\<open>isHandInBox\<close> is false changes the status line only: phase, phase clock, buffer and
  progress stay.
\<close>

theorem guided_out_of_region:
  "\<not> isHandInBox landmarks (canvasWidth e) (canvasHeight e) \<longrightarrow>
     detectLoop_guided e (Detected (landmarks # others)) st = st\<lparr>status := KeepInsideBox\<rparr>"
  by (simp add: detectLoop_guided_def handleHand_def)

theorem guided_out_of_region_witness:
  "detectLoop_guided (envAt 2000)
       (Detected [closedHand[3 := \<lparr>px = Finite (3 / 4), py = Finite (1 / 2), pz = Finite 0\<rparr>]])
       (initialGuided\<lparr>phaseRef := Hold, holdFramesRef := [closedHand]\<rparr>) =
     initialGuided\<lparr>phaseRef := Hold, holdFramesRef := [closedHand], status := KeepInsideBox\<rparr>"
proof -
  let ?bad = "closedHand[3 := \<lparr>px = Finite (3 / 4), py = Finite (1 / 2), pz = Finite 0\<rparr>]"
  have "\<lparr>px = Finite (3 / 4), py = Finite (1 / 2), pz = Finite 0\<rparr> \<in> set ?bad"
    by (rule set_update_memI) (simp add: closedHand_def)
  moreover have "\<not> dle (dmul (Finite (3 / 4)) (Finite 640)) (dadd (Finite 320) (Finite 144))"
    by (simp add: round64_eval)
  ultimately have "\<not> isHandInBox ?bad (Finite 640) (Finite 480)"
    unfolding isHandInBox_iff box_640_480 by force
  then have "\<not> isHandInBox ?bad (canvasWidth (envAt 2000)) (canvasHeight (envAt 2000))"
    by (simp add: envAt_def)
  then show ?thesis
    using guided_out_of_region [of ?bad "envAt 2000" "[]"
        "initialGuided\<lparr>phaseRef := Hold, holdFramesRef := [closedHand]\<rparr>"]
    by (simp add: initialGuided_def)
qed

text \<open>
  Property X4: the rules phase.  With a detected hand, \<open>Rules\<close> becomes \<open>Game\<close> exactly when
  the code's \<^verbatim>\<open>now - phaseStartRef.current\<close> is at least 10000; then the phase clock and
  the game-start clock are now and the time left is 60.  Otherwise the countdown is the
  remaining time in seconds, rounded up.
\<close>

theorem rules_countdown:
  "phaseRef st = Rules \<longrightarrow>
     (let st' = detectLoop_game isMobile e (Detected (landmarks # others)) st;
          elapsed = dsub (perfNow e) (phaseStartRef st)
      in (phaseRef st' = Game \<longleftrightarrow> dle (Finite 10000) elapsed) \<and>
         (dle (Finite 10000) elapsed \<longrightarrow>
            phaseStartRef st' = perfNow e \<and> gameStartRef st' = perfNow e \<and>
            gameTimeLeft st' = Finite 60) \<and>
         (\<not> dle (Finite 10000) elapsed \<longrightarrow>
            phaseRef st' = Rules \<and>
            rulesCountdown st' =
              dceil (ddiv (dmax (Finite 0) (dsub (Finite 10000) elapsed)) (Finite 1000))))"
  by (simp add: detectLoop_game_def updateRulesPhase_def Let_def RULES_TIME_def)

theorem rules_countdown_witness:
  "phaseRef (detectLoop_game False (envAt 10000) (Detected [closedHand])
      (initialGame\<lparr>phaseRef := Rules\<rparr>)) = Game \<and>
   gameStartRef (detectLoop_game False (envAt 10000) (Detected [closedHand])
      (initialGame\<lparr>phaseRef := Rules\<rparr>)) = Finite 10000 \<and>
   phaseRef (detectLoop_game False (envAt 2500) (Detected [closedHand])
      (initialGame\<lparr>phaseRef := Rules\<rparr>)) = Rules \<and>
   rulesCountdown (detectLoop_game False (envAt 2500) (Detected [closedHand])
      (initialGame\<lparr>phaseRef := Rules\<rparr>)) = Finite 8"
  using rules_countdown [of "initialGame\<lparr>phaseRef := Rules\<rparr>" False "envAt 10000" closedHand "[]"]
    rules_countdown [of "initialGame\<lparr>phaseRef := Rules\<rparr>" False "envAt 2500" closedHand "[]"]
  by (simp add: Let_def initialGame_def envAt_def dmax_def round64_eval)

end
